theory Spec2Isabelle
  imports Main
begin

section \<open>Values, exceptions and the primitives of the host\<close>

text \<open>
  The program is Python 3. A Python \<open>str\<close> is a sequence of code points: a string
  is a list of natural numbers, \<open>length\<close> is Python's \<open>len\<close>, and \<open>str\<close> turns a
  literal of the logic into the string of its characters. Python's \<open>int\<close> is unbounded
  and is HOL's \<open>int\<close>. The arithmetic of Python's \<open>float\<close> and the character tables
  of Unicode are not part of the program: the float type is the type parameter \<open>'f\<close>,
  and the primitives are the fields of the record \<open>host\<close>, passed to every function
  that reaches them.
\<close>

type_synonym pystr = "nat list"

definition str :: "string \<Rightarrow> pystr" where
  "str s = map of_char s"

datatype 'f val = VInt int | VFloat 'f | VStr pystr | VBool bool

datatype pyerr =
    RuntimeError string
  | AttributeError
  | TypeError
  | ZeroDivisionError
  | ValueError
  | OverflowError
  | EOFError

datatype ordering = Less | Equal | Greater

text \<open>
  The fields are the primitives of the host that the program reaches.
  \<open>float_lit\<close> is \<open>float(v)\<close> on a lexed literal \<open>digits.digits\<close>, which never
  raises; \<open>float_of_str\<close> is \<open>float(s)\<close> on any string (\<open>None\<close>: ValueError);
  \<open>float_of_int\<close> is the conversion of an \<open>int\<close> (\<open>None\<close>: OverflowError);
  \<open>int_of_float\<close> is \<open>int(x)\<close>, which raises on infinities and NaN;
  \<open>int_of_str\<close> is \<open>int(s)\<close>, the parse of a string (\<open>None\<close>: ValueError);
  \<open>fdiv\<close> is float division (\<open>None\<close>: ZeroDivisionError); \<open>int_truediv\<close> is
  \<open>a / b\<close> on two ints with \<open>b\<close> not zero (\<open>None\<close>: OverflowError);
  \<open>fcmp\<close> compares two floats and \<open>int_cmp_float\<close> an int with a float, exactly:
  the first is less than, equal to or greater than the second, or \<open>None\<close> when the
  float is a NaN and every comparison is false; \<open>ftruthy\<close> is the truth value of a
  float and \<open>fstr\<close> is \<open>str(x)\<close>. The last two are Unicode's tables, asked only
  about code points from 256 on: \<open>uni_decimal\<close> is the value of a decimal digit
  (\<open>None\<close>: not a decimal digit) and \<open>uni_alnum\<close> says whether a character is
  alphanumeric.
\<close>

record 'f host =
  float_lit :: "pystr \<Rightarrow> 'f"
  float_of_str :: "pystr \<Rightarrow> 'f option"
  float_of_int :: "int \<Rightarrow> 'f option"
  int_of_float :: "'f \<Rightarrow> pyerr + int"
  int_of_str :: "pystr \<Rightarrow> int option"
  fadd :: "'f \<Rightarrow> 'f \<Rightarrow> 'f"
  fsub :: "'f \<Rightarrow> 'f \<Rightarrow> 'f"
  fmul :: "'f \<Rightarrow> 'f \<Rightarrow> 'f"
  fdiv :: "'f \<Rightarrow> 'f \<Rightarrow> 'f option"
  int_truediv :: "int \<Rightarrow> int \<Rightarrow> 'f option"
  fcmp :: "'f \<Rightarrow> 'f \<Rightarrow> ordering option"
  int_cmp_float :: "int \<Rightarrow> 'f \<Rightarrow> ordering option"
  ftruthy :: "'f \<Rightarrow> bool"
  fstr :: "'f \<Rightarrow> pystr"
  uni_decimal :: "nat \<Rightarrow> nat option"
  uni_alnum :: "nat \<Rightarrow> bool"

text \<open>
  The host converts between \<open>int\<close> and \<open>str\<close> only up to a number of digits, 4300
  unless configured otherwise: \<open>int(v)\<close> on more digits, leading zeros counted, and
  \<open>str(i)\<close> for an \<open>i\<close> of more digits raise ValueError.
\<close>

definition max_str_digits :: nat where
  "max_str_digits = 4300"

section \<open>Tokens\<close>

datatype kind =
    T_NUMBER | T_STRING
  | T_EQ | T_NEQ | T_LT | T_GT | T_LE | T_GE | T_AND | T_OR
  | T_PL | T_MN | T_DP | T_NP
  | T_VAR | T_INT | T_FLT | T_BOOL | T_SET | T_IF | T_WSET | T_FCE
  | T_TRY | T_CATCH | T_TRUE | T_FALSE | T_LEN | T_INP
  | T_IDENT | T_ASSIGN | T_LBRACE | T_RBRACE | T_COLON | T_SKIP | T_NEWLINE

datatype 'f token = Token (ttype: kind) (tvalue: "'f val")

section \<open>Lexer\<close>

subsection \<open>Character classes of the patterns\<close>

text \<open>
  \<open>\d\<close> on a \<open>str\<close> pattern is a Unicode decimal digit: below 256 the ASCII digits
  only. \<open>digit_value\<close> is the value \<open>int\<close> gives such a digit.
\<close>

definition is_digit :: "'f host \<Rightarrow> nat \<Rightarrow> bool" where
  "is_digit H c = (if c < 256 then 48 \<le> c \<and> c \<le> 57 else uni_decimal H c \<noteq> None)"

definition digit_value :: "'f host \<Rightarrow> nat \<Rightarrow> nat" where
  "digit_value H c =
     (if c < 256 then c - 48 else (case uni_decimal H c of None \<Rightarrow> 0 | Some d \<Rightarrow> d))"

text \<open>\<open>[a-zA-Z_]\<close>.\<close>

definition is_ident_start :: "nat \<Rightarrow> bool" where
  "is_ident_start c = ((97 \<le> c \<and> c \<le> 122) \<or> (65 \<le> c \<and> c \<le> 90) \<or> c = 95)"

text \<open>
  \<open>\w\<close> on a \<open>str\<close> pattern is an alphanumeric character or the underscore. Below
  256 these are the ASCII ones, the letters of Latin-1, and the code points 0xAA, 0xB2,
  0xB3, 0xB5, 0xB9, 0xBA, 0xBC..0xBE.
\<close>

definition is_word :: "'f host \<Rightarrow> nat \<Rightarrow> bool" where
  "is_word H c =
     (if c < 256 then
        (48 \<le> c \<and> c \<le> 57) \<or> is_ident_start c \<or> c = 170 \<or> c = 178 \<or> c = 179
        \<or> c = 181 \<or> c = 185 \<or> c = 186 \<or> (188 \<le> c \<and> c \<le> 190)
        \<or> (192 \<le> c \<and> c \<le> 214) \<or> (216 \<le> c \<and> c \<le> 246) \<or> 248 \<le> c
      else uni_alnum H c)"

definition dquote :: nat where
  "dquote = 34"

definition dot :: nat where
  "dot = 46"

definition hash :: nat where
  "hash = 35"

text \<open>A space or a tab.\<close>

definition is_blank :: "nat \<Rightarrow> bool" where
  "is_blank c = (c = 32 \<or> c = 9)"

subsection \<open>The patterns of the token table\<close>

text \<open>
  A pattern is modelled by its matcher at the start of a text: the length of the match
  the backtracking engine finds there, or \<open>None\<close>. No pattern of the table matches
  the empty string.
\<close>

type_synonym pattern = "pystr \<Rightarrow> nat option"

text \<open>\<open>\d+(\.\d+)?\<close>: the longest run of digits, then a dot and a run of digits if
  both are there.\<close>

definition number_re :: "'f host \<Rightarrow> pattern" where
  "number_re H s =
     (let n = length (takeWhile (is_digit H) s); r = drop n s in
      if n = 0 then None
      else if r \<noteq> [] \<and> hd r = dot \<and> length (takeWhile (is_digit H) (tl r)) \<noteq> 0
           then Some (n + 1 + length (takeWhile (is_digit H) (tl r)))
      else Some n)"

text \<open>\<open>"[^"]*"\<close>: a quote, everything up to the next quote, and that quote.\<close>

definition string_re :: pattern where
  "string_re s =
     (case s of
        [] \<Rightarrow> None
      | c # r \<Rightarrow>
          if c = dquote \<and> dquote \<in> set r
          then Some (length (takeWhile (\<lambda>x. x \<noteq> dquote) r) + 2)
          else None)"

text \<open>A literal pattern such as \<open>eq\<close> or \<open>\{\<close>.\<close>

definition lit :: "string \<Rightarrow> pattern" where
  "lit w s = (if w \<noteq> [] \<and> take (length w) s = str w then Some (length w) else None)"

text \<open>\<open>[a-zA-Z_]\w*\<close>.\<close>

definition ident_re :: "'f host \<Rightarrow> pattern" where
  "ident_re H s =
     (case s of
        [] \<Rightarrow> None
      | c # r \<Rightarrow>
          if is_ident_start c then Some (1 + length (takeWhile (is_word H) r)) else None)"

text \<open>\<open>[ \t]+\<close>.\<close>

definition skip_re :: pattern where
  "skip_re s = (let n = length (takeWhile is_blank s) in if n = 0 then None else Some n)"

definition token_spec :: "'f host \<Rightarrow> (kind \<times> pattern) list" where
  "token_spec H =
     [(T_NUMBER, number_re H),
      (T_STRING, string_re),
      (T_EQ, lit ''eq''),
      (T_NEQ, lit ''neq''),
      (T_LT, lit ''lt''),
      (T_GT, lit ''gt''),
      (T_LE, lit ''le''),
      (T_GE, lit ''ge''),
      (T_AND, lit ''and''),
      (T_OR, lit ''or''),
      (T_PL, lit ''pl''),
      (T_MN, lit ''mn''),
      (T_DP, lit ''dp''),
      (T_NP, lit ''np''),
      (T_VAR, lit ''var''),
      (T_INT, lit ''int''),
      (T_FLT, lit ''flt''),
      (T_BOOL, lit ''bool''),
      (T_SET, lit ''set''),
      (T_IF, lit ''if''),
      (T_WSET, lit ''wset''),
      (T_FCE, lit ''fce''),
      (T_TRY, lit ''try''),
      (T_CATCH, lit ''catch''),
      (T_TRUE, lit ''true''),
      (T_FALSE, lit ''false''),
      (T_LEN, lit ''len''),
      (T_INP, lit ''inp''),
      (T_IDENT, ident_re H),
      (T_ASSIGN, lit ''=''),
      (T_LBRACE, lit ''{''),
      (T_RBRACE, lit ''}''),
      (T_COLON, lit '':''),
      (T_SKIP, skip_re),
      (T_NEWLINE, lit [CHR 0x0A])]"

subsection \<open>The alternation and the scan of a line\<close>

text \<open>
  The regex is the alternation of the table's patterns as named groups, in the table's
  order: at a position the first alternative that matches wins, and \<open>lastgroup\<close> is
  its name.
\<close>

fun first_match :: "(kind \<times> pattern) list \<Rightarrow> pystr \<Rightarrow> (kind \<times> nat) option" where
  "first_match [] s = None"
| "first_match ((k, p) # ps) s =
     (case p s of Some n \<Rightarrow> Some (k, n) | None \<Rightarrow> first_match ps s)"

definition match_at :: "'f host \<Rightarrow> pystr \<Rightarrow> (kind \<times> nat) option" where
  "match_at H s = first_match (token_spec H) s"

text \<open>
  \<open>int(v)\<close> on a run of decimal digits: ValueError on more than \<open>max_str_digits\<close>
  of them, else the number they write in base ten.
\<close>

definition int_of_digits :: "'f host \<Rightarrow> pystr \<Rightarrow> pyerr + int" where
  "int_of_digits H v =
     (if max_str_digits < length v then Inl ValueError
      else Inr (foldl (\<lambda>a c. 10 * a + int (digit_value H c)) 0 v))"

text \<open>
  The token appended for a match of group \<open>k\<close> with text \<open>v\<close>, if any, or the
  exception the conversion of a number raises.
\<close>

definition mk_token :: "'f host \<Rightarrow> kind \<Rightarrow> pystr \<Rightarrow> pyerr + 'f token option" where
  "mk_token H k v =
     (if k = T_NUMBER then
        (if dot \<in> set v then Inr (Some (Token T_NUMBER (VFloat (float_lit H v))))
         else (case int_of_digits H v of
                 Inl e \<Rightarrow> Inl e
               | Inr i \<Rightarrow> Inr (Some (Token T_NUMBER (VInt i)))))
      else if k = T_STRING then Inr (Some (Token T_STRING (VStr (butlast (tl v)))))
      else if k = T_SKIP \<or> k = T_NEWLINE then Inr None
      else Inr (Some (Token k (VStr v))))"

text \<open>\<open>tokens.append(t)\<close> unless the match made no token.\<close>

definition append_token :: "'f token option \<Rightarrow> 'f token list \<Rightarrow> 'f token list" where
  "append_token t ts = (case t of None \<Rightarrow> ts | Some tok \<Rightarrow> tok # ts)"

text \<open>
  \<open>re.finditer\<close> over one line: at each position the alternation is tried; after a
  match the scan goes on at its end, and where nothing matches it moves one character
  on. The result is the tokens of the line, or the exception that ended the scan.
\<close>

function tokenize_line :: "'f host \<Rightarrow> pystr \<Rightarrow> pyerr + 'f token list" where
  "tokenize_line H [] = Inr []"
| "tokenize_line H (c # cs) =
     (case match_at H (c # cs) of
        None \<Rightarrow> tokenize_line H cs
      | Some (k, n) \<Rightarrow>
          (case mk_token H k (take n (c # cs)) of
             Inl e \<Rightarrow> Inl e
           | Inr t \<Rightarrow>
               (case tokenize_line H (drop n (c # cs)) of
                  Inl e \<Rightarrow> Inl e
                | Inr ts \<Rightarrow> Inr (append_token t ts))))"
  by pat_completeness auto

lemma lit_pos: "lit w s = Some n \<Longrightarrow> 0 < n"
  by (auto simp: lit_def split: if_splits)

lemma number_re_pos: "number_re H s = Some n \<Longrightarrow> 0 < n"
  by (auto simp: number_re_def Let_def split: if_splits)

lemma string_re_pos: "string_re s = Some n \<Longrightarrow> 0 < n"
  by (auto simp: string_re_def split: list.splits if_splits)

lemma ident_re_pos: "ident_re H s = Some n \<Longrightarrow> 0 < n"
  by (auto simp: ident_re_def split: list.splits if_splits)

lemma skip_re_pos: "skip_re s = Some n \<Longrightarrow> 0 < n"
  by (auto simp: skip_re_def Let_def split: if_splits)

lemma first_match_pos:
  "\<forall>(k, p) \<in> set ps. \<forall>n. p s = Some n \<longrightarrow> 0 < n \<Longrightarrow> first_match ps s = Some (k, n) \<Longrightarrow> 0 < n"
  by (induction ps) (auto split: option.splits)

lemma match_at_pos: "match_at H s = Some (k, n) \<Longrightarrow> 0 < n"
  unfolding match_at_def
  by (erule first_match_pos [rotated])
     (auto simp: token_spec_def dest: lit_pos number_re_pos string_re_pos ident_re_pos skip_re_pos)

termination tokenize_line
  by (relation "measure (\<lambda>(H, s). length s)") (auto dest: match_at_pos)

subsection \<open>Lines and comments\<close>

text \<open>
  \<open>str.splitlines\<close>: the line boundaries are LF, VT, FF, CR, FS, GS, RS, NEL and the
  line and paragraph separators U+2028 and U+2029; CR LF is one boundary; a boundary
  at the very end opens no further line.
\<close>

definition is_linebreak :: "nat \<Rightarrow> bool" where
  "is_linebreak c =
     (c = 10 \<or> c = 11 \<or> c = 12 \<or> c = 13 \<or> c = 28 \<or> c = 29 \<or> c = 30 \<or> c = 133
      \<or> c = 8232 \<or> c = 8233)"

fun splitlines_from :: "pystr \<Rightarrow> pystr \<Rightarrow> pystr list" where
  "splitlines_from cur [] = (if cur = [] then [] else [cur])"
| "splitlines_from cur (c # cs) =
     (if c = 13 \<and> cs \<noteq> [] \<and> hd cs = 10 then cur # splitlines_from [] (tl cs)
      else if is_linebreak c then cur # splitlines_from [] cs
      else splitlines_from (cur @ [c]) cs)"

definition splitlines :: "pystr \<Rightarrow> pystr list" where
  "splitlines s = splitlines_from [] s"

text \<open>\<open>line.split("#",1)[0]\<close>.\<close>

definition strip_comment :: "pystr \<Rightarrow> pystr" where
  "strip_comment line = takeWhile (\<lambda>c. c \<noteq> hash) line"

text \<open>Tokens, and then more tokens, unless getting either raised.\<close>

definition then_tokens ::
  "pyerr + 'f token list \<Rightarrow> pyerr + 'f token list \<Rightarrow> pyerr + 'f token list" where
  "then_tokens x y =
     (case x of
        Inl e \<Rightarrow> Inl e
      | Inr ts \<Rightarrow> (case y of Inl e \<Rightarrow> Inl e | Inr us \<Rightarrow> Inr (ts @ us)))"

text \<open>The loop over the lines: the tokens of each line in turn, until one raises.\<close>

fun tokenize_lines :: "'f host \<Rightarrow> pystr list \<Rightarrow> pyerr + 'f token list" where
  "tokenize_lines H [] = Inr []"
| "tokenize_lines H (line # lines) =
     then_tokens (tokenize_line H (strip_comment line)) (tokenize_lines H lines)"

definition tokenize :: "'f host \<Rightarrow> pystr \<Rightarrow> pyerr + 'f token list" where
  "tokenize H src = tokenize_lines H (splitlines src)"

section \<open>Syntax trees\<close>

text \<open>
  The nodes are the tagged tuples the parser builds. A binary node carries the type of
  its operator token, one of twelve. A branch of \<open>IF\<close>, \<open>WSET\<close> and \<open>TRY\<close> is what
  \<open>block_or_stmt\<close> returned, which is \<open>None\<close> when the branch was a skipped token. The tag \<open>STR\<close> is written
  \<open>STR_N\<close>.
\<close>

datatype binop = PL | MN | DP | NP | EQ | NEQ | LT | GT | LE | GE | AND | OR

datatype 'f expr =
    NUM "'f val"
  | STR_N "'f val"
  | BOOL bool
  | VARREF "'f val"
  | INP
  | LEN "'f expr"
  | BIN binop "'f expr" "'f expr"

datatype 'f stmt =
    VAR kind "'f val" "'f expr"
  | SET "'f expr"
  | IF "'f expr" "'f stmt option" "'f stmt option"
  | WSET "'f expr" "'f stmt option"
  | BLOCK "'f stmt list"
  | FCE "'f val"
  | TRY "'f stmt option" "'f stmt option"

section \<open>Parser\<close>

text \<open>
  The parser's state is \<open>tokens\<close> and \<open>pos\<close>, and \<open>pos\<close> only grows: the model
  carries the tokens from \<open>pos\<close> on. A parsing function returns the exception raised,
  or its result and the tokens left.
\<close>

definition current :: "'f token list \<Rightarrow> 'f token option" where
  "current ts = (case ts of [] \<Rightarrow> None | tok # _ \<Rightarrow> Some tok)"

definition eat :: "kind \<Rightarrow> 'f token list \<Rightarrow> pyerr + ('f token \<times> 'f token list)" where
  "eat t ts =
     (case ts of
        [] \<Rightarrow> Inl (RuntimeError ''parser desync'')
      | tok # rest \<Rightarrow>
          if ttype tok = t then Inr (tok, rest) else Inl (RuntimeError ''parser desync''))"

subsection \<open>Expressions\<close>

text \<open>With no token left \<open>tok\<close> is \<open>None\<close> and \<open>tok.type\<close> raises AttributeError.\<close>

fun factor :: "'f token list \<Rightarrow> pyerr + ('f expr \<times> 'f token list)" where
  "factor [] = Inl AttributeError"
| "factor (tok # rest) =
     (if ttype tok = T_NUMBER then Inr (NUM (tvalue tok), rest)
      else if ttype tok = T_STRING then Inr (STR_N (tvalue tok), rest)
      else if ttype tok = T_TRUE then Inr (BOOL True, rest)
      else if ttype tok = T_FALSE then Inr (BOOL False, rest)
      else if ttype tok = T_IDENT then Inr (VARREF (tvalue tok), rest)
      else if ttype tok = T_INP then Inr (INP, rest)
      else if ttype tok = T_LEN then
        (case factor rest of Inl e \<Rightarrow> Inl e | Inr (f, rest') \<Rightarrow> Inr (LEN f, rest'))
      else Inl (RuntimeError ''bad expr''))"

text \<open>The operator token types the loop of \<open>expr\<close> goes on at.\<close>

fun binop_of :: "kind \<Rightarrow> binop option" where
  "binop_of T_PL = Some PL"
| "binop_of T_MN = Some MN"
| "binop_of T_DP = Some DP"
| "binop_of T_NP = Some NP"
| "binop_of T_EQ = Some EQ"
| "binop_of T_NEQ = Some NEQ"
| "binop_of T_LT = Some LT"
| "binop_of T_GT = Some GT"
| "binop_of T_LE = Some LE"
| "binop_of T_GE = Some GE"
| "binop_of T_AND = Some AND"
| "binop_of T_OR = Some OR"
| "binop_of _ = None"

lemma factor_shorter: "factor ts = Inr (f, rest) \<Longrightarrow> length rest < length ts"
proof (induction ts arbitrary: f rest)
  case Nil
  then show ?case by simp
next
  case (Cons tok ts)
  show ?case
  proof (cases "ttype tok = T_LEN")
    case True
    with Cons.prems obtain g where "factor ts = Inr (g, rest)"
      by (auto split: sum.splits)
    from Cons.IH [OF this] show ?thesis by simp
  next
    case False
    with Cons.prems show ?thesis by (auto split: if_splits)
  qed
qed

function expr_loop :: "'f expr \<Rightarrow> 'f token list \<Rightarrow> pyerr + ('f expr \<times> 'f token list)" where
  "expr_loop n [] = Inr (n, [])"
| "expr_loop n (tok # rest) =
     (case binop_of (ttype tok) of
        None \<Rightarrow> Inr (n, tok # rest)
      | Some op \<Rightarrow>
          (case factor rest of
             Inl e \<Rightarrow> Inl e
           | Inr (f, rest') \<Rightarrow> expr_loop (BIN op n f) rest'))"
  by pat_completeness auto
termination
  by (relation "measure (\<lambda>(n, ts). length ts)") (auto dest: factor_shorter)

definition expr :: "'f token list \<Rightarrow> pyerr + ('f expr \<times> 'f token list)" where
  "expr ts = (case factor ts of Inl e \<Rightarrow> Inl e | Inr (n, rest) \<Rightarrow> expr_loop n rest)"

subsection \<open>Statements\<close>

text \<open>The test \<open>self.current() and self.current().type == k\<close>.\<close>

definition current_is :: "kind \<Rightarrow> 'f token list \<Rightarrow> bool" where
  "current_is k ts = (case current ts of None \<Rightarrow> False | Some tok \<Rightarrow> ttype tok = k)"

definition var_decl :: "'f token list \<Rightarrow> pyerr + ('f stmt \<times> 'f token list)" where
  "var_decl ts =
     (case eat T_VAR ts of
        Inl e \<Rightarrow> Inl e
      | Inr (_, ts1) \<Rightarrow>
     (case current ts1 of
        None \<Rightarrow> Inl AttributeError
      | Some c \<Rightarrow>
     (case eat (ttype c) ts1 of
        Inl e \<Rightarrow> Inl e
      | Inr (t, ts2) \<Rightarrow>
     (case eat T_IDENT ts2 of
        Inl e \<Rightarrow> Inl e
      | Inr (name, ts3) \<Rightarrow>
     (case eat T_ASSIGN ts3 of
        Inl e \<Rightarrow> Inl e
      | Inr (_, ts4) \<Rightarrow>
     (case expr ts4 of
        Inl e \<Rightarrow> Inl e
      | Inr (v, ts5) \<Rightarrow> Inr (VAR (ttype t) (tvalue name) v, ts5)))))))"

definition set_stmt :: "'f token list \<Rightarrow> pyerr + ('f stmt \<times> 'f token list)" where
  "set_stmt ts =
     (case eat T_SET ts of
        Inl e \<Rightarrow> Inl e
      | Inr (_, ts1) \<Rightarrow>
     (case expr ts1 of
        Inl e \<Rightarrow> Inl e
      | Inr (v, ts2) \<Rightarrow> Inr (SET v, ts2)))"

definition fce_stmt :: "'f token list \<Rightarrow> pyerr + ('f stmt \<times> 'f token list)" where
  "fce_stmt ts =
     (case eat T_FCE ts of
        Inl e \<Rightarrow> Inl e
      | Inr (_, ts1) \<Rightarrow>
     (case eat T_IDENT ts1 of
        Inl e \<Rightarrow> Inl e
      | Inr (name, ts2) \<Rightarrow> Inr (FCE (tvalue name), ts2)))"

text \<open>A statement parser's tuple, returned by \<open>statement\<close> as it is.\<close>

definition returned :: "pyerr + ('f stmt \<times> 'f token list) \<Rightarrow> pyerr + ('f stmt option \<times> 'f token list)" where
  "returned r = (case r of Inl e \<Rightarrow> Inl e | Inr (st, ts) \<Rightarrow> Inr (Some st, ts))"

text \<open>\<open>s.append(st)\<close> unless \<open>st\<close> is \<open>None\<close>.\<close>

definition append_stmt :: "'f stmt list \<Rightarrow> 'f stmt option \<Rightarrow> 'f stmt list" where
  "append_stmt s st = (case st of None \<Rightarrow> s | Some x \<Rightarrow> s @ [x])"

text \<open>
  \<open>statement\<close>, \<open>if_stmt\<close>, \<open>wset_stmt\<close>, \<open>try_stmt\<close> and \<open>block_or_stmt\<close> call one
  another. Their first argument is fuel, one unit per nested call: the result \<open>None\<close>
  says the fuel ran out, \<open>Some (Inl e)\<close> that the exception \<open>e\<close> was raised.
  \<open>block_loop\<close> is the \<open>while\<close> loop of \<open>block_or_stmt\<close>, with the list \<open>s\<close>.
\<close>

function (sequential) statement :: "nat \<Rightarrow> 'f token list \<Rightarrow> (pyerr + ('f stmt option \<times> 'f token list)) option"
  and if_stmt :: "nat \<Rightarrow> 'f token list \<Rightarrow> (pyerr + ('f stmt \<times> 'f token list)) option"
  and wset_stmt :: "nat \<Rightarrow> 'f token list \<Rightarrow> (pyerr + ('f stmt \<times> 'f token list)) option"
  and try_stmt :: "nat \<Rightarrow> 'f token list \<Rightarrow> (pyerr + ('f stmt \<times> 'f token list)) option"
  and block_or_stmt :: "nat \<Rightarrow> 'f token list \<Rightarrow> (pyerr + ('f stmt option \<times> 'f token list)) option"
  and block_loop :: "nat \<Rightarrow> 'f stmt list \<Rightarrow> 'f token list \<Rightarrow> (pyerr + ('f stmt list \<times> 'f token list)) option"
where
  "statement 0 ts = None"
| "statement (Suc n) [] = Some (Inr (None, []))"
| "statement (Suc n) (tok # rest) =
     (if ttype tok = T_STRING \<or> ttype tok = T_NUMBER \<or> ttype tok = T_TRUE \<or> ttype tok = T_FALSE
      then Some (Inr (None, rest))
      else if ttype tok = T_VAR then Some (returned (var_decl (tok # rest)))
      else if ttype tok = T_SET then Some (returned (set_stmt (tok # rest)))
      else if ttype tok = T_IF then map_option returned (if_stmt n (tok # rest))
      else if ttype tok = T_WSET then map_option returned (wset_stmt n (tok # rest))
      else if ttype tok = T_FCE then Some (returned (fce_stmt (tok # rest)))
      else if ttype tok = T_TRY then map_option returned (try_stmt n (tok # rest))
      else Some (Inr (None, rest)))"
| "if_stmt 0 ts = None"
| "if_stmt (Suc n) ts =
     (case eat T_IF ts of
        Inl e \<Rightarrow> Some (Inl e)
      | Inr (_, ts1) \<Rightarrow>
     (case expr ts1 of
        Inl e \<Rightarrow> Some (Inl e)
      | Inr (cond, ts2) \<Rightarrow>
     (case block_or_stmt n ts2 of
        None \<Rightarrow> None
      | Some (Inl e) \<Rightarrow> Some (Inl e)
      | Some (Inr (th, ts3)) \<Rightarrow>
          if current_is T_COLON ts3 then
            (case eat T_COLON ts3 of
               Inl e \<Rightarrow> Some (Inl e)
             | Inr (_, ts4) \<Rightarrow>
            (case block_or_stmt n ts4 of
               None \<Rightarrow> None
             | Some (Inl e) \<Rightarrow> Some (Inl e)
             | Some (Inr (el, ts5)) \<Rightarrow> Some (Inr (IF cond th el, ts5))))
          else Some (Inr (IF cond th None, ts3)))))"
| "wset_stmt 0 ts = None"
| "wset_stmt (Suc n) ts =
     (case eat T_WSET ts of
        Inl e \<Rightarrow> Some (Inl e)
      | Inr (_, ts1) \<Rightarrow>
     (case expr ts1 of
        Inl e \<Rightarrow> Some (Inl e)
      | Inr (cond, ts2) \<Rightarrow>
     (case block_or_stmt n ts2 of
        None \<Rightarrow> None
      | Some (Inl e) \<Rightarrow> Some (Inl e)
      | Some (Inr (b, ts3)) \<Rightarrow> Some (Inr (WSET cond b, ts3)))))"
| "try_stmt 0 ts = None"
| "try_stmt (Suc n) ts =
     (case eat T_TRY ts of
        Inl e \<Rightarrow> Some (Inl e)
      | Inr (_, ts1) \<Rightarrow>
     (case block_or_stmt n ts1 of
        None \<Rightarrow> None
      | Some (Inl e) \<Rightarrow> Some (Inl e)
      | Some (Inr (t, ts2)) \<Rightarrow>
     (case eat T_CATCH ts2 of
        Inl e \<Rightarrow> Some (Inl e)
      | Inr (_, ts3) \<Rightarrow>
     (case block_or_stmt n ts3 of
        None \<Rightarrow> None
      | Some (Inl e) \<Rightarrow> Some (Inl e)
      | Some (Inr (c, ts4)) \<Rightarrow> Some (Inr (TRY t c, ts4))))))"
| "block_or_stmt 0 ts = None"
| "block_or_stmt (Suc n) ts =
     (if current_is T_LBRACE ts then
        (case eat T_LBRACE ts of
           Inl e \<Rightarrow> Some (Inl e)
         | Inr (_, ts1) \<Rightarrow>
        (case block_loop n [] ts1 of
           None \<Rightarrow> None
         | Some (Inl e) \<Rightarrow> Some (Inl e)
         | Some (Inr (s, ts2)) \<Rightarrow>
        (case eat T_RBRACE ts2 of
           Inl e \<Rightarrow> Some (Inl e)
         | Inr (_, ts3) \<Rightarrow> Some (Inr (Some (BLOCK s), ts3)))))
      else statement n ts)"
| "block_loop 0 s ts = None"
| "block_loop (Suc n) s ts =
     (if current ts \<noteq> None \<and> \<not> current_is T_RBRACE ts then
        (case statement n ts of
           None \<Rightarrow> None
         | Some (Inl e) \<Rightarrow> Some (Inl e)
         | Some (Inr (st, ts1)) \<Rightarrow> block_loop n (append_stmt s st) ts1)
      else Some (Inr (s, ts)))"
  by pat_completeness auto
termination
  by (relation "measure (\<lambda>x. case x of
         Inl (Inl (n, _)) \<Rightarrow> n
       | Inl (Inr (Inl (n, _))) \<Rightarrow> n
       | Inl (Inr (Inr (n, _))) \<Rightarrow> n
       | Inr (Inl (n, _)) \<Rightarrow> n
       | Inr (Inr (Inl (n, _))) \<Rightarrow> n
       | Inr (Inr (Inr (n, _, _))) \<Rightarrow> n)") simp_all

text \<open>The loop of \<open>parse\<close>, with the list \<open>stmts\<close>.\<close>

fun parse_loop :: "nat \<Rightarrow> 'f stmt list \<Rightarrow> 'f token list \<Rightarrow> (pyerr + 'f stmt list) option" where
  "parse_loop 0 stmts ts = None"
| "parse_loop (Suc n) stmts ts =
     (if current ts \<noteq> None then
        (case statement n ts of
           None \<Rightarrow> None
         | Some (Inl e) \<Rightarrow> Some (Inl e)
         | Some (Inr (stmt, ts1)) \<Rightarrow> parse_loop n (append_stmt stmts stmt) ts1)
      else Some (Inr stmts))"

definition parse :: "nat \<Rightarrow> 'f token list \<Rightarrow> (pyerr + 'f stmt list) option" where
  "parse n ts = parse_loop n [] ts"

section \<open>Interpreter\<close>

subsection \<open>The host's operators on values\<close>

text \<open>A \<open>bool\<close> is an \<open>int\<close> in arithmetic and comparison.\<close>

fun num_of :: "'f val \<Rightarrow> (int + 'f) option" where
  "num_of (VInt i) = Some (Inl i)"
| "num_of (VBool b) = Some (Inl (if b then 1 else 0))"
| "num_of (VFloat x) = Some (Inr x)"
| "num_of (VStr s) = None"

fun to_float :: "'f host \<Rightarrow> int + 'f \<Rightarrow> 'f option" where
  "to_float H (Inl i) = float_of_int H i"
| "to_float H (Inr x) = Some x"

text \<open>\<open>+\<close>, \<open>-\<close> and \<open>*\<close> on two numbers: on ints exact, else on floats.\<close>

fun num_arith ::
  "'f host \<Rightarrow> (int \<Rightarrow> int \<Rightarrow> int) \<Rightarrow> ('f \<Rightarrow> 'f \<Rightarrow> 'f) \<Rightarrow> int + 'f \<Rightarrow> int + 'f \<Rightarrow> pyerr + 'f val" where
  "num_arith H iop fop (Inl i) (Inl j) = Inr (VInt (iop i j))"
| "num_arith H iop fop a b =
     (case to_float H a of
        None \<Rightarrow> Inl OverflowError
      | Some x \<Rightarrow>
          (case to_float H b of
             None \<Rightarrow> Inl OverflowError
           | Some y \<Rightarrow> Inr (VFloat (fop x y))))"

fun py_add :: "'f host \<Rightarrow> 'f val \<Rightarrow> 'f val \<Rightarrow> pyerr + 'f val" where
  "py_add H (VStr s) (VStr t) = Inr (VStr (s @ t))"
| "py_add H a b =
     (case (num_of a, num_of b) of
        (Some x, Some y) \<Rightarrow> num_arith H (\<lambda>i j. i + j) (fadd H) x y
      | _ \<Rightarrow> Inl TypeError)"

definition py_sub :: "'f host \<Rightarrow> 'f val \<Rightarrow> 'f val \<Rightarrow> pyerr + 'f val" where
  "py_sub H a b =
     (case (num_of a, num_of b) of
        (Some x, Some y) \<Rightarrow> num_arith H (\<lambda>i j. i - j) (fsub H) x y
      | _ \<Rightarrow> Inl TypeError)"

text \<open>A string times an int is its repetition, empty for a count below one.\<close>

definition repeat :: "pystr \<Rightarrow> int \<Rightarrow> pystr" where
  "repeat s i = concat (replicate (nat i) s)"

fun py_mul :: "'f host \<Rightarrow> 'f val \<Rightarrow> 'f val \<Rightarrow> pyerr + 'f val" where
  "py_mul H (VStr s) b =
     (case num_of b of Some (Inl i) \<Rightarrow> Inr (VStr (repeat s i)) | _ \<Rightarrow> Inl TypeError)"
| "py_mul H a (VStr s) =
     (case num_of a of Some (Inl i) \<Rightarrow> Inr (VStr (repeat s i)) | _ \<Rightarrow> Inl TypeError)"
| "py_mul H a b =
     (case (num_of a, num_of b) of
        (Some x, Some y) \<Rightarrow> num_arith H (\<lambda>i j. i * j) (fmul H) x y
      | _ \<Rightarrow> Inl TypeError)"

text \<open>\<open>/\<close> is true division: its result is a float, also on two ints.\<close>

fun num_truediv :: "'f host \<Rightarrow> int + 'f \<Rightarrow> int + 'f \<Rightarrow> pyerr + 'f val" where
  "num_truediv H (Inl i) (Inl j) =
     (if j = 0 then Inl ZeroDivisionError
      else (case int_truediv H i j of None \<Rightarrow> Inl OverflowError | Some x \<Rightarrow> Inr (VFloat x)))"
| "num_truediv H a b =
     (case to_float H a of
        None \<Rightarrow> Inl OverflowError
      | Some x \<Rightarrow>
          (case to_float H b of
             None \<Rightarrow> Inl OverflowError
           | Some y \<Rightarrow>
               (case fdiv H x y of None \<Rightarrow> Inl ZeroDivisionError | Some z \<Rightarrow> Inr (VFloat z))))"

definition py_truediv :: "'f host \<Rightarrow> 'f val \<Rightarrow> 'f val \<Rightarrow> pyerr + 'f val" where
  "py_truediv H a b =
     (case (num_of a, num_of b) of
        (Some x, Some y) \<Rightarrow> num_truediv H x y
      | _ \<Rightarrow> Inl TypeError)"

text \<open>Strings are ordered as sequences of code points.\<close>

fun str_cmp :: "pystr \<Rightarrow> pystr \<Rightarrow> ordering" where
  "str_cmp [] [] = Equal"
| "str_cmp [] (y # ys) = Less"
| "str_cmp (x # xs) [] = Greater"
| "str_cmp (x # xs) (y # ys) =
     (if x < y then Less else if y < x then Greater else str_cmp xs ys)"

definition int_cmp :: "int \<Rightarrow> int \<Rightarrow> ordering" where
  "int_cmp i j = (if i < j then Less else if i = j then Equal else Greater)"

fun flip :: "ordering option \<Rightarrow> ordering option" where
  "flip (Some Less) = Some Greater"
| "flip (Some Greater) = Some Less"
| "flip r = r"

fun num_cmp :: "'f host \<Rightarrow> int + 'f \<Rightarrow> int + 'f \<Rightarrow> ordering option" where
  "num_cmp H (Inl i) (Inl j) = Some (int_cmp i j)"
| "num_cmp H (Inl i) (Inr y) = int_cmp_float H i y"
| "num_cmp H (Inr x) (Inl j) = flip (int_cmp_float H j x)"
| "num_cmp H (Inr x) (Inr y) = fcmp H x y"

text \<open>
  How two values compare: \<open>None\<close> when they are of kinds that have no order (a string
  and a number), else how the first stands to the second, which is \<open>None\<close> again when
  a NaN takes part.
\<close>

fun compare :: "'f host \<Rightarrow> 'f val \<Rightarrow> 'f val \<Rightarrow> ordering option option" where
  "compare H (VStr s) (VStr t) = Some (Some (str_cmp s t))"
| "compare H a b =
     (case (num_of a, num_of b) of
        (Some x, Some y) \<Rightarrow> Some (num_cmp H x y)
      | _ \<Rightarrow> None)"

text \<open>\<open>==\<close> never raises: values without a common order are unequal.\<close>

definition py_eq :: "'f host \<Rightarrow> 'f val \<Rightarrow> 'f val \<Rightarrow> bool" where
  "py_eq H a b = (compare H a b = Some (Some Equal))"

text \<open>\<open><\<close>, \<open>>\<close>, \<open><=\<close>, \<open>>=\<close>, by the orderings that make them true.\<close>

definition py_order :: "'f host \<Rightarrow> ordering list \<Rightarrow> 'f val \<Rightarrow> 'f val \<Rightarrow> pyerr + 'f val" where
  "py_order H accept a b =
     (case compare H a b of
        None \<Rightarrow> Inl TypeError
      | Some None \<Rightarrow> Inr (VBool False)
      | Some (Some r) \<Rightarrow> Inr (VBool (r \<in> set accept)))"

text \<open>The truth value of a value.\<close>

fun truthy :: "'f host \<Rightarrow> 'f val \<Rightarrow> bool" where
  "truthy H (VInt i) = (i \<noteq> 0)"
| "truthy H (VFloat x) = ftruthy H x"
| "truthy H (VStr s) = (s \<noteq> [])"
| "truthy H (VBool b) = b"

fun py_len :: "'f val \<Rightarrow> pyerr + 'f val" where
  "py_len (VStr s) = Inr (VInt (int (length s)))"
| "py_len _ = Inl TypeError"

fun py_int :: "'f host \<Rightarrow> 'f val \<Rightarrow> pyerr + 'f val" where
  "py_int H (VInt i) = Inr (VInt i)"
| "py_int H (VBool b) = Inr (VInt (if b then 1 else 0))"
| "py_int H (VFloat x) = (case int_of_float H x of Inl e \<Rightarrow> Inl e | Inr i \<Rightarrow> Inr (VInt i))"
| "py_int H (VStr s) = (case int_of_str H s of None \<Rightarrow> Inl ValueError | Some i \<Rightarrow> Inr (VInt i))"

fun py_float :: "'f host \<Rightarrow> 'f val \<Rightarrow> pyerr + 'f val" where
  "py_float H (VFloat x) = Inr (VFloat x)"
| "py_float H (VInt i) =
     (case float_of_int H i of None \<Rightarrow> Inl OverflowError | Some x \<Rightarrow> Inr (VFloat x))"
| "py_float H (VBool b) =
     (case float_of_int H (if b then 1 else 0) of
        None \<Rightarrow> Inl OverflowError
      | Some x \<Rightarrow> Inr (VFloat x))"
| "py_float H (VStr s) =
     (case float_of_str H s of None \<Rightarrow> Inl ValueError | Some x \<Rightarrow> Inr (VFloat x))"

text \<open>
  \<open>str(v)\<close>, the text \<open>print\<close> writes. For an \<open>int\<close> of more than
  \<open>max_str_digits\<close> digits it raises ValueError.
\<close>

definition digit_char :: "nat \<Rightarrow> nat" where
  "digit_char d = 48 + d"

fun nat_str :: "nat \<Rightarrow> pystr" where
  "nat_str n =
     (if n < 10 then [digit_char n] else nat_str (n div 10) @ [digit_char (n mod 10)])"

declare nat_str.simps [simp del]

definition int_str :: "int \<Rightarrow> pystr" where
  "int_str i = (if i < 0 then 45 # nat_str (nat (- i)) else nat_str (nat i))"

fun py_str :: "'f host \<Rightarrow> 'f val \<Rightarrow> pyerr + pystr" where
  "py_str H (VInt i) =
     (if max_str_digits < length (nat_str (nat \<bar>i\<bar>)) then Inl ValueError else Inr (int_str i))"
| "py_str H (VFloat x) = Inr (fstr H x)"
| "py_str H (VStr s) = Inr s"
| "py_str H (VBool b) = Inr (str (if b then ''True'' else ''False''))"

text \<open>The operators of the binary nodes other than \<open>and\<close> and \<open>or\<close>.\<close>

fun binary :: "'f host \<Rightarrow> binop \<Rightarrow> 'f val \<Rightarrow> 'f val \<Rightarrow> pyerr + 'f val" where
  "binary H PL a b = py_add H a b"
| "binary H MN a b = py_sub H a b"
| "binary H DP a b = py_mul H a b"
| "binary H NP a b = py_truediv H a b"
| "binary H EQ a b = Inr (VBool (py_eq H a b))"
| "binary H NEQ a b = Inr (VBool (\<not> py_eq H a b))"
| "binary H LT a b = py_order H [Less] a b"
| "binary H GT a b = py_order H [Greater] a b"
| "binary H LE a b = py_order H [Less, Equal] a b"
| "binary H GE a b = py_order H [Greater, Equal] a b"
| "binary H op a b = Inl TypeError"

subsection \<open>State\<close>

text \<open>
  \<open>vars\<close> and \<open>funcs\<close> are the interpreter's dictionaries. \<open>stdin\<close> holds the lines
  still to be read and \<open>stdout\<close> the texts printed so far, each followed by a newline
  on the channel.
\<close>

record 'f interp =
  vars :: "'f val \<rightharpoonup> 'f val"
  funcs :: "'f val \<rightharpoonup> 'f stmt list"
  stdin :: "pystr list"
  stdout :: "pystr list"

definition Interpreter :: "pystr list \<Rightarrow> 'f interp" where
  "Interpreter inp =
     \<lparr>vars = Map.empty,
      funcs = [VStr (str ''hello'') \<mapsto> [SET (STR_N (VStr (str ''hello function'')))]],
      stdin = inp,
      stdout = []\<rparr>"

text \<open>\<open>input()\<close>: the next line, or EOFError when there is none.\<close>

definition input :: "'f interp \<Rightarrow> (pyerr + 'f val) \<times> 'f interp" where
  "input s =
     (case stdin s of
        [] \<Rightarrow> (Inl EOFError, s)
      | l # ls \<Rightarrow> (Inr (VStr l), s\<lparr>stdin := ls\<rparr>))"

text \<open>\<open>print(v)\<close>: the text of \<open>v\<close> is written, unless its conversion raises.\<close>

definition print :: "'f host \<Rightarrow> 'f val \<Rightarrow> 'f interp \<Rightarrow> pyerr option \<times> 'f interp" where
  "print H v s =
     (case py_str H v of
        Inl err \<Rightarrow> (Some err, s)
      | Inr t \<Rightarrow> (None, s\<lparr>stdout := stdout s @ [t]\<rparr>))"

subsection \<open>Expressions\<close>

text \<open>
  \<open>eval\<close> returns the value or the exception raised, and the state, which a read of
  input has changed. The left operand is evaluated first; the host's \<open>and\<close> and \<open>or\<close>
  evaluate the right operand only when the left one does not decide.
\<close>

fun eval :: "'f host \<Rightarrow> 'f expr \<Rightarrow> 'f interp \<Rightarrow> (pyerr + 'f val) \<times> 'f interp" where
  "eval H (NUM v) s = (Inr v, s)"
| "eval H (STR_N v) s = (Inr v, s)"
| "eval H (BOOL b) s = (Inr (VBool b), s)"
| "eval H (VARREF x) s = (Inr (case vars s x of None \<Rightarrow> VInt 0 | Some v \<Rightarrow> v), s)"
| "eval H INP s = input s"
| "eval H (LEN e) s =
     (case eval H e s of
        (Inl err, s1) \<Rightarrow> (Inl err, s1)
      | (Inr v, s1) \<Rightarrow> (py_len v, s1))"
| "eval H (BIN AND l r) s =
     (case eval H l s of
        (Inl err, s1) \<Rightarrow> (Inl err, s1)
      | (Inr a, s1) \<Rightarrow> if truthy H a then eval H r s1 else (Inr a, s1))"
| "eval H (BIN OR l r) s =
     (case eval H l s of
        (Inl err, s1) \<Rightarrow> (Inl err, s1)
      | (Inr a, s1) \<Rightarrow> if truthy H a then (Inr a, s1) else eval H r s1)"
| "eval H (BIN op l r) s =
     (case eval H l s of
        (Inl err, s1) \<Rightarrow> (Inl err, s1)
      | (Inr a, s1) \<Rightarrow>
          (case eval H r s1 of
             (Inl err, s2) \<Rightarrow> (Inl err, s2)
           | (Inr b, s2) \<Rightarrow> (binary H op a b, s2)))"

subsection \<open>Statements\<close>

text \<open>The value \<open>VAR\<close> stores: \<open>int(val)\<close>, \<open>float(val)\<close> or \<open>val\<close>.\<close>

definition coerce :: "'f host \<Rightarrow> kind \<Rightarrow> 'f val \<Rightarrow> pyerr + 'f val" where
  "coerce H tp val =
     (if tp = T_INT then py_int H val else if tp = T_FLT then py_float H val else Inr val)"

text \<open>
  \<open>run\<close> is the loop over the statements and \<open>run_stmt\<close> its body; an element that is
  \<open>None\<close> raises TypeError at \<open>s[0]\<close>. \<open>wset_loop\<close> is the \<open>while\<close> of \<open>WSET\<close>.
  The first argument is fuel, one unit per nested call and per turn of a loop: the
  result \<open>None\<close> says the fuel ran out. Otherwise the result is the exception that
  ended the run, if any, and the state reached.
\<close>

function (sequential) run :: "'f host \<Rightarrow> nat \<Rightarrow> 'f stmt option list \<Rightarrow> 'f interp \<Rightarrow> (pyerr option \<times> 'f interp) option"
  and run_stmt :: "'f host \<Rightarrow> nat \<Rightarrow> 'f stmt option \<Rightarrow> 'f interp \<Rightarrow> (pyerr option \<times> 'f interp) option"
  and wset_loop :: "'f host \<Rightarrow> nat \<Rightarrow> 'f expr \<Rightarrow> 'f stmt option \<Rightarrow> 'f interp \<Rightarrow> (pyerr option \<times> 'f interp) option"
where
  "run H 0 stmts s = None"
| "run H (Suc n) [] s = Some (None, s)"
| "run H (Suc n) (x # xs) s =
     (case run_stmt H n x s of
        None \<Rightarrow> None
      | Some (Some err, s1) \<Rightarrow> Some (Some err, s1)
      | Some (None, s1) \<Rightarrow> run H n xs s1)"
| "run_stmt H 0 x s = None"
| "run_stmt H (Suc n) None s = Some (Some TypeError, s)"
| "run_stmt H (Suc n) (Some (VAR tp name v)) s =
     (case eval H v s of
        (Inl err, s1) \<Rightarrow> Some (Some err, s1)
      | (Inr val, s1) \<Rightarrow>
          (case coerce H tp val of
             Inl err \<Rightarrow> Some (Some err, s1)
           | Inr c \<Rightarrow> Some (None, s1\<lparr>vars := (vars s1)(name \<mapsto> c)\<rparr>)))"
| "run_stmt H (Suc n) (Some (SET e)) s =
     (case eval H e s of
        (Inl err, s1) \<Rightarrow> Some (Some err, s1)
      | (Inr v, s1) \<Rightarrow> Some (print H v s1))"
| "run_stmt H (Suc n) (Some (IF c th el)) s =
     (case eval H c s of
        (Inl err, s1) \<Rightarrow> Some (Some err, s1)
      | (Inr v, s1) \<Rightarrow>
          if truthy H v then run H n [th] s1
          else (case el of None \<Rightarrow> Some (None, s1) | Some e \<Rightarrow> run H n [Some e] s1))"
| "run_stmt H (Suc n) (Some (WSET c b)) s = wset_loop H n c b s"
| "run_stmt H (Suc n) (Some (BLOCK stmts)) s = run H n (map Some stmts) s"
| "run_stmt H (Suc n) (Some (FCE name)) s =
     (case funcs s name of
        None \<Rightarrow> Some (None, s)
      | Some body \<Rightarrow> run H n (map Some body) s)"
| "run_stmt H (Suc n) (Some (TRY t c)) s =
     (case run H n [t] s of
        None \<Rightarrow> None
      | Some (None, s1) \<Rightarrow> Some (None, s1)
      | Some (Some err, s1) \<Rightarrow> run H n [c] s1)"
| "wset_loop H 0 c b s = None"
| "wset_loop H (Suc n) c b s =
     (case eval H c s of
        (Inl err, s1) \<Rightarrow> Some (Some err, s1)
      | (Inr v, s1) \<Rightarrow>
          if truthy H v then
            (case run H n [b] s1 of
               None \<Rightarrow> None
             | Some (Some err, s2) \<Rightarrow> Some (Some err, s2)
             | Some (None, s2) \<Rightarrow> wset_loop H n c b s2)
          else Some (None, s1))"
  by pat_completeness auto
termination
  by (relation "measure (\<lambda>x. case x of
         Inl (_, n, _) \<Rightarrow> n
       | Inr (Inl (_, n, _)) \<Rightarrow> n
       | Inr (Inr (_, n, _)) \<Rightarrow> n)") simp_all

subsection \<open>A host for closed instances\<close>

text \<open>
  The theorems below hold for every host. Their closed instances, in which no float
  and no character from 256 on takes part, are stated for a host whose float type
  has a single value and whose character tables are empty.
\<close>

definition host0 :: "unit host" where
  "host0 =
     \<lparr>float_lit = (\<lambda>v. ()),
      float_of_str = (\<lambda>s. Some ()),
      float_of_int = (\<lambda>i. Some ()),
      int_of_float = (\<lambda>x. Inr 0),
      int_of_str = (\<lambda>s. None),
      fadd = (\<lambda>x y. ()),
      fsub = (\<lambda>x y. ()),
      fmul = (\<lambda>x y. ()),
      fdiv = (\<lambda>x y. Some ()),
      int_truediv = (\<lambda>i j. Some ()),
      fcmp = (\<lambda>x y. Some Equal),
      int_cmp_float = (\<lambda>i x. None),
      ftruthy = (\<lambda>x. False),
      fstr = (\<lambda>x. str ''0.0''),
      uni_decimal = (\<lambda>c. None),
      uni_alnum = (\<lambda>c. False)\<rparr>"

section \<open>Evaluating the model\<close>

text \<open>The definitions a closed instance is computed with.\<close>

lemmas lex_defs = tokenize_def splitlines_def strip_comment_def match_at_def token_spec_def
  lit_def number_re_def string_re_def ident_re_def skip_re_def is_digit_def is_ident_start_def
  is_word_def dquote_def dot_def hash_def is_linebreak_def is_blank_def mk_token_def
  int_of_digits_def digit_value_def max_str_digits_def append_token_def then_tokens_def str_def
  Let_def

lemmas parse_defs = parse_def current_def current_is_def eat_def var_decl_def set_stmt_def
  fce_stmt_def returned_def append_stmt_def expr_def

lemmas run_defs = Interpreter_def input_def print_def coerce_def py_sub_def py_truediv_def
  py_eq_def py_order_def int_cmp_def int_str_def repeat_def digit_char_def nat_str.simps
  max_str_digits_def str_def

text \<open>Fuel written as a sum is that many nested calls and more.\<close>

lemma fuel_plus:
  "k + 2 = Suc (Suc k)"
  "k + 3 = Suc (Suc (Suc k))"
  "k + 4 = Suc (Suc (Suc (Suc k)))"
  "k + 5 = Suc (Suc (Suc (Suc (Suc k))))"
  "k + 6 = Suc (Suc (Suc (Suc (Suc (Suc k)))))"
  "k + 7 = Suc (Suc (Suc (Suc (Suc (Suc (Suc k))))))"
  by simp_all

lemma fuel_five: "(5::nat) = Suc (Suc (Suc (Suc (Suc 0))))"
  by simp

section \<open>Properties of \<open>eval\<close>\<close>

text \<open>
  C1, as amended. For an \<open>and\<close> or \<open>or\<close> node \<open>eval\<close> evaluates the left operand
  first, and an exception it raises is raised by the node. A left value that decides
  the result (falsy for \<open>and\<close>, truthy for \<open>or\<close>) is returned and the right operand
  is not evaluated: the state is the one the left operand left. Otherwise the node's
  value, exception and state are those of the right operand, evaluated after the left.
\<close>

theorem and_or_short_circuit:
  "(\<forall>err s1. eval H l s = (Inl err, s1) \<longrightarrow>
      eval H (BIN AND l r) s = (Inl err, s1) \<and> eval H (BIN OR l r) s = (Inl err, s1)) \<and>
   (\<forall>a s1. eval H l s = (Inr a, s1) \<and> truthy H a \<longrightarrow>
      eval H (BIN AND l r) s = eval H r s1 \<and> eval H (BIN OR l r) s = (Inr a, s1)) \<and>
   (\<forall>a s1. eval H l s = (Inr a, s1) \<and> \<not> truthy H a \<longrightarrow>
      eval H (BIN AND l r) s = (Inr a, s1) \<and> eval H (BIN OR l r) s = eval H r s1)"
  by simp

text \<open>
  The three cases at work: a left operand that raises, a truthy one and a falsy one,
  with a read of input as the other operand.
\<close>

theorem and_or_short_circuit_witness:
  "eval host0 INP (Interpreter []) = (Inl EOFError, Interpreter []) \<and>
   eval host0 (BIN AND INP (BOOL True)) (Interpreter []) = (Inl EOFError, Interpreter []) \<and>
   eval host0 (BOOL True) (Interpreter [str ''a'']) = (Inr (VBool True), Interpreter [str ''a'']) \<and>
   truthy host0 (VBool True) \<and>
   eval host0 (BIN AND (BOOL True) INP) (Interpreter [str ''a'']) = (Inr (VStr (str ''a'')), Interpreter []) \<and>
   eval host0 (BIN OR (BOOL True) INP) (Interpreter [str ''a'']) = (Inr (VBool True), Interpreter [str ''a'']) \<and>
   eval host0 (NUM (VInt 0)) (Interpreter [str ''a'']) = (Inr (VInt 0), Interpreter [str ''a'']) \<and>
   \<not> truthy host0 (VInt 0) \<and>
   eval host0 (BIN AND (NUM (VInt 0)) INP) (Interpreter [str ''a'']) = (Inr (VInt 0), Interpreter [str ''a'']) \<and>
   eval host0 (BIN OR (NUM (VInt 0)) INP) (Interpreter [str ''a'']) = (Inr (VStr (str ''a'')), Interpreter [])"
  using and_or_short_circuit [of host0 INP "Interpreter []" "BOOL True"]
    and_or_short_circuit [of host0 "BOOL True" "Interpreter [str ''a'']" INP]
    and_or_short_circuit [of host0 "NUM (VInt 0)" "Interpreter [str ''a'']" INP]
  by (simp add: input_def Interpreter_def)

text \<open>
  C1 as stated fails. With no input left the operand \<open>inp\<close> raises EOFError, yet
  \<open>false and inp\<close> and \<open>true or inp\<close> raise nothing and return the left value.
\<close>

theorem and_or_evaluate_both_counterexample:
  "fst (eval host0 INP (Interpreter [])) = Inl EOFError \<and>
   eval host0 (BIN AND (BOOL False) INP) (Interpreter []) = (Inr (VBool False), Interpreter []) \<and>
   eval host0 (BIN OR (BOOL True) INP) (Interpreter []) = (Inr (VBool True), Interpreter [])"
  by (simp add: input_def Interpreter_def)

text \<open>
  C5. A reference to a name that is not in \<open>vars\<close> evaluates to the integer 0 and
  raises nothing; a reference to a name that is in \<open>vars\<close> evaluates to the value
  stored. The state is unchanged.
\<close>

theorem varref_default_zero:
  "(vars s x = None \<longrightarrow> eval H (VARREF x) s = (Inr (VInt 0), s)) \<and>
   (\<forall>v. vars s x = Some v \<longrightarrow> eval H (VARREF x) s = (Inr v, s))"
  by simp

theorem varref_default_zero_witness:
  "vars (Interpreter [] :: unit interp) (VStr (str ''x'')) = None \<and>
   eval host0 (VARREF (VStr (str ''x''))) (Interpreter []) = (Inr (VInt 0), Interpreter []) \<and>
   vars ((Interpreter [] :: unit interp)\<lparr>vars := [VStr (str ''x'') \<mapsto> VInt 7]\<rparr>) (VStr (str ''x'')) = Some (VInt 7) \<and>
   eval host0 (VARREF (VStr (str ''x''))) ((Interpreter [])\<lparr>vars := [VStr (str ''x'') \<mapsto> VInt 7]\<rparr>)
     = (Inr (VInt 7), (Interpreter [])\<lparr>vars := [VStr (str ''x'') \<mapsto> VInt 7]\<rparr>)"
  using varref_default_zero [of "Interpreter []" "VStr (str ''x'')" host0]
    varref_default_zero [of "(Interpreter [])\<lparr>vars := [VStr (str ''x'') \<mapsto> VInt 7]\<rparr>" "VStr (str ''x'')" host0]
  by (simp add: Interpreter_def)

text \<open>
  C7. For every string \<open>s\<close>, the node \<open>Len(Str(s))\<close> evaluates to the number of
  characters of \<open>s\<close>, raises nothing and leaves the state as it was.
\<close>

theorem len_str_char_count:
  "eval H (LEN (STR_N (VStr s))) st = (Inr (VInt (int (length s))), st)"
  by simp

section \<open>Properties of \<open>run\<close>\<close>

subsection \<open>\<open>TRY\<close>\<close>

lemma tokenize_try:
  \<open>tokenize H (str ''try { set 1 np 0 } catch { set "caught" }'') =
     Inr [Token T_TRY (VStr (str ''try'')), Token T_LBRACE (VStr (str ''{'')), Token T_SET (VStr (str ''set'')),
      Token T_NUMBER (VInt 1), Token T_NP (VStr (str ''np'')), Token T_NUMBER (VInt 0),
      Token T_RBRACE (VStr (str ''}'')), Token T_CATCH (VStr (str ''catch'')), Token T_LBRACE (VStr (str ''{'')),
      Token T_SET (VStr (str ''set'')), Token T_STRING (VStr (str ''caught'')), Token T_RBRACE (VStr (str ''}''))]\<close>
  by (simp add: lex_defs)

lemma parse_try:
  \<open>tokenize H (str ''try { set 1 np 0 } catch { set "caught" }'') = Inr toks \<Longrightarrow>
   parse (k + 6) toks =
     Some (Inr [TRY (Some (BLOCK [SET (BIN NP (NUM (VInt 1)) (NUM (VInt 0)))]))
                    (Some (BLOCK [SET (STR_N (VStr (str ''caught'')))]))])\<close>
  unfolding tokenize_try fuel_plus by (auto simp: parse_defs)

lemma run_try:
  "run H (k + 7)
     [Some (TRY (Some (BLOCK [SET (BIN NP (NUM (VInt 1)) (NUM (VInt 0)))]))
                (Some (BLOCK [SET (STR_N (VStr (str ''caught'')))])))] (Interpreter inp)
   = Some (None, (Interpreter inp)\<lparr>stdout := [str ''caught'']\<rparr>)"
  unfolding fuel_plus by (simp add: run_defs)

text \<open>
  C4. Executing \<open>TRY\<close> runs the try-branch. If it ends without an exception the
  statement ends there, in the state reached, and the catch-branch is not run. If it
  raises an exception, of whatever kind, the catch-branch is run from the state the
  try-branch left, and the outcome of the catch-branch, an exception it raises
  included, is the outcome of the statement. The program
  \<open>try { set 1 np 0 } catch { set "caught" }\<close> parses, runs without an exception and
  prints the single line \<open>caught\<close>.
\<close>

theorem try_catch:
  \<open>(\<forall>s1. run H n [t] s = Some (None, s1) \<longrightarrow>
      run_stmt H (Suc n) (Some (TRY t c)) s = Some (None, s1)) \<and>
   (\<forall>err s1. run H n [t] s = Some (Some err, s1) \<longrightarrow>
      run_stmt H (Suc n) (Some (TRY t c)) s = run H n [c] s1) \<and>
   (\<exists>toks prog.
      tokenize H (str ''try { set 1 np 0 } catch { set "caught" }'') = Inr toks \<and>
      (\<forall>k. parse (k + 6) toks = Some (Inr prog)) \<and>
      (\<forall>k. run H (k + 7) (map Some prog) (Interpreter inp)
            = Some (None, (Interpreter inp)\<lparr>stdout := [str ''caught'']\<rparr>)))\<close>
proof (intro conjI)
  show \<open>\<exists>toks prog.
      tokenize H (str ''try { set 1 np 0 } catch { set "caught" }'') = Inr toks \<and>
      (\<forall>k. parse (k + 6) toks = Some (Inr prog)) \<and>
      (\<forall>k. run H (k + 7) (map Some prog) (Interpreter inp)
            = Some (None, (Interpreter inp)\<lparr>stdout := [str ''caught'']\<rparr>))\<close>
    using parse_try [OF tokenize_try] run_try [of H _ inp] tokenize_try [of H]
    by (intro exI conjI allI) auto
qed simp_all

text \<open>
  A try-branch that divides by zero, with a catch-branch that prints and with one that
  divides by zero again, and a try-branch that raises nothing.
\<close>

theorem try_catch_witness:
  "run host0 5 [Some (SET (BIN NP (NUM (VInt 1)) (NUM (VInt 0))))] (Interpreter [])
     = Some (Some ZeroDivisionError, Interpreter []) \<and>
   run_stmt host0 (Suc 5)
       (Some (TRY (Some (SET (BIN NP (NUM (VInt 1)) (NUM (VInt 0))))) (Some (SET (NUM (VInt 2))))))
       (Interpreter [])
     = Some (None, (Interpreter [])\<lparr>stdout := [str ''2'']\<rparr>) \<and>
   run_stmt host0 (Suc 5)
       (Some (TRY (Some (SET (BIN NP (NUM (VInt 1)) (NUM (VInt 0)))))
                  (Some (SET (BIN NP (NUM (VInt 1)) (NUM (VInt 0)))))))
       (Interpreter [])
     = Some (Some ZeroDivisionError, Interpreter []) \<and>
   run host0 5 [Some (SET (NUM (VInt 1)))] (Interpreter [])
     = Some (None, (Interpreter [])\<lparr>stdout := [str ''1'']\<rparr>) \<and>
   run_stmt host0 (Suc 5) (Some (TRY (Some (SET (NUM (VInt 1)))) (Some (SET (NUM (VInt 2))))))
       (Interpreter [])
     = Some (None, (Interpreter [])\<lparr>stdout := [str ''1'']\<rparr>)"
  using try_catch [of host0 5 "Some (SET (BIN NP (NUM (VInt 1)) (NUM (VInt 0))))" "Interpreter []"
      "Some (SET (NUM (VInt 2)))" "[]"]
    try_catch [of host0 5 "Some (SET (BIN NP (NUM (VInt 1)) (NUM (VInt 0))))" "Interpreter []"
      "Some (SET (BIN NP (NUM (VInt 1)) (NUM (VInt 0))))" "[]"]
    try_catch [of host0 5 "Some (SET (NUM (VInt 1)))" "Interpreter []" "Some (SET (NUM (VInt 2)))" "[]"]
  unfolding fuel_five by (simp add: run_defs)

subsection \<open>\<open>VAR\<close>\<close>

lemma tokenize_var:
  "tokenize H (str ''var int x = 3 pl 4'' @ [10] @ str ''set x'') =
     Inr [Token T_VAR (VStr (str ''var'')), Token T_INT (VStr (str ''int'')), Token T_IDENT (VStr (str ''x'')),
      Token T_ASSIGN (VStr (str ''='')), Token T_NUMBER (VInt 3), Token T_PL (VStr (str ''pl'')),
      Token T_NUMBER (VInt 4), Token T_SET (VStr (str ''set'')), Token T_IDENT (VStr (str ''x''))]"
  by (simp add: lex_defs)

lemma parse_var:
  "tokenize H (str ''var int x = 3 pl 4'' @ [10] @ str ''set x'') = Inr toks \<Longrightarrow>
   parse (k + 3) toks =
     Some (Inr [VAR T_INT (VStr (str ''x'')) (BIN PL (NUM (VInt 3)) (NUM (VInt 4))),
                SET (VARREF (VStr (str ''x'')))])"
  unfolding tokenize_var fuel_plus by (auto simp: parse_defs)

lemma run_var:
  "run H (k + 4)
     (map Some [VAR T_INT (VStr (str ''x'')) (BIN PL (NUM (VInt 3)) (NUM (VInt 4))),
                SET (VARREF (VStr (str ''x'')))]) (Interpreter inp)
   = Some (None, (Interpreter inp)\<lparr>vars := [VStr (str ''x'') \<mapsto> VInt 7], stdout := [str ''7'']\<rparr>)"
  unfolding fuel_plus by (simp add: run_defs)

text \<open>
  C6. Executing \<open>VAR\<close> evaluates the initializer once; when that gives a value, the
  value coerced by the declared type is stored in \<open>vars\<close> under the declared name, in
  the state the evaluation left: \<open>int(val)\<close> for \<open>int\<close>, \<open>float(val)\<close> for \<open>flt\<close>, and
  \<open>val\<close> itself for \<open>var\<close>, \<open>bool\<close> and any other type token; an exception of the
  coercion is raised and nothing is stored. \<open>int\<close> leaves an int as it is and takes a
  float to the host's integer for it; \<open>float\<close> leaves a float as it is and takes an int
  to the host's float for it. The program \<open>var int x = 3 pl 4\<close>, \<open>set x\<close> on the next
  line, parses, runs without an exception and prints the single line \<open>7\<close>.
\<close>

theorem var_decl_coerces:
  "(\<forall>val s1. eval H v s = (Inr val, s1) \<longrightarrow>
      run_stmt H (Suc n) (Some (VAR tp name v)) s =
        (case (if tp = T_INT then py_int H val else if tp = T_FLT then py_float H val else Inr val) of
           Inl err \<Rightarrow> Some (Some err, s1)
         | Inr c \<Rightarrow> Some (None, s1\<lparr>vars := (vars s1)(name \<mapsto> c)\<rparr>))) \<and>
   (\<forall>i. py_int H (VInt i) = Inr (VInt i)) \<and>
   (\<forall>x i. int_of_float H x = Inr i \<longrightarrow> py_int H (VFloat x) = Inr (VInt i)) \<and>
   (\<forall>x. py_float H (VFloat x) = Inr (VFloat x)) \<and>
   (\<forall>i x. float_of_int H i = Some x \<longrightarrow> py_float H (VInt i) = Inr (VFloat x)) \<and>
   (\<exists>toks prog.
      tokenize H (str ''var int x = 3 pl 4'' @ [10] @ str ''set x'') = Inr toks \<and>
      (\<forall>k. parse (k + 3) toks = Some (Inr prog)) \<and>
      (\<forall>k. run H (k + 4) (map Some prog) (Interpreter inp)
            = Some (None, (Interpreter inp)\<lparr>vars := [VStr (str ''x'') \<mapsto> VInt 7], stdout := [str ''7'']\<rparr>)))"
proof (intro conjI)
  show "\<exists>toks prog.
      tokenize H (str ''var int x = 3 pl 4'' @ [10] @ str ''set x'') = Inr toks \<and>
      (\<forall>k. parse (k + 3) toks = Some (Inr prog)) \<and>
      (\<forall>k. run H (k + 4) (map Some prog) (Interpreter inp)
            = Some (None, (Interpreter inp)\<lparr>vars := [VStr (str ''x'') \<mapsto> VInt 7], stdout := [str ''7'']\<rparr>))"
    using parse_var [OF tokenize_var] run_var [of H _ inp] tokenize_var [of H]
    by (intro exI conjI allI) auto
qed (simp_all add: coerce_def)

text \<open>
  An initializer that gives 7, declared \<open>int\<close>, \<open>flt\<close> and \<open>var\<close>, and a string
  declared \<open>bool\<close>.
\<close>

theorem var_decl_coerces_witness:
  "eval host0 (BIN PL (NUM (VInt 3)) (NUM (VInt 4))) (Interpreter []) = (Inr (VInt 7), Interpreter []) \<and>
   run_stmt host0 (Suc 0) (Some (VAR T_INT (VStr (str ''x'')) (BIN PL (NUM (VInt 3)) (NUM (VInt 4)))))
       (Interpreter [])
     = Some (None, (Interpreter [])\<lparr>vars := [VStr (str ''x'') \<mapsto> VInt 7]\<rparr>) \<and>
   float_of_int host0 7 = Some () \<and>
   run_stmt host0 (Suc 0) (Some (VAR T_FLT (VStr (str ''x'')) (BIN PL (NUM (VInt 3)) (NUM (VInt 4)))))
       (Interpreter [])
     = Some (None, (Interpreter [])\<lparr>vars := [VStr (str ''x'') \<mapsto> VFloat ()]\<rparr>) \<and>
   run_stmt host0 (Suc 0) (Some (VAR T_VAR (VStr (str ''x'')) (BIN PL (NUM (VInt 3)) (NUM (VInt 4)))))
       (Interpreter [])
     = Some (None, (Interpreter [])\<lparr>vars := [VStr (str ''x'') \<mapsto> VInt 7]\<rparr>) \<and>
   eval host0 (STR_N (VStr (str ''7''))) (Interpreter []) = (Inr (VStr (str ''7'')), Interpreter []) \<and>
   run_stmt host0 (Suc 0) (Some (VAR T_BOOL (VStr (str ''x'')) (STR_N (VStr (str ''7''))))) (Interpreter [])
     = Some (None, (Interpreter [])\<lparr>vars := [VStr (str ''x'') \<mapsto> VStr (str ''7'')]\<rparr>) \<and>
   int_of_float host0 () = Inr 0 \<and>
   py_int host0 (VFloat ()) = Inr (VInt 0)"
  using var_decl_coerces [of host0 "BIN PL (NUM (VInt 3)) (NUM (VInt 4))" "Interpreter []" 0 T_INT "VStr (str ''x'')" "[]"]
    var_decl_coerces [of host0 "BIN PL (NUM (VInt 3)) (NUM (VInt 4))" "Interpreter []" 0 T_FLT "VStr (str ''x'')" "[]"]
    var_decl_coerces [of host0 "BIN PL (NUM (VInt 3)) (NUM (VInt 4))" "Interpreter []" 0 T_VAR "VStr (str ''x'')" "[]"]
    var_decl_coerces [of host0 "STR_N (VStr (str ''7''))" "Interpreter []" 0 T_BOOL "VStr (str ''x'')" "[]"]
  by (simp add: run_defs host0_def)

subsection \<open>\<open>FCE\<close>\<close>

lemma tokenize_hello:
  "tokenize H (str ''fce hello'') = Inr [Token T_FCE (VStr (str ''fce'')), Token T_IDENT (VStr (str ''hello''))]"
  by (simp add: lex_defs)

lemma tokenize_missing:
  "tokenize H (str ''fce missingName'') = Inr [Token T_FCE (VStr (str ''fce'')), Token T_IDENT (VStr (str ''missingName''))]"
  by (simp add: lex_defs)

lemma parse_hello:
  "tokenize H (str ''fce hello'') = Inr toks \<Longrightarrow>
   parse (k + 3) toks = Some (Inr [FCE (VStr (str ''hello''))])"
  unfolding tokenize_hello fuel_plus by (auto simp: parse_defs)

lemma parse_missing:
  "tokenize H (str ''fce missingName'') = Inr toks \<Longrightarrow>
   parse (k + 3) toks = Some (Inr [FCE (VStr (str ''missingName''))])"
  unfolding tokenize_missing fuel_plus by (auto simp: parse_defs)

lemma run_hello:
  "run H (k + 5) (map Some [FCE (VStr (str ''hello''))]) (Interpreter inp)
   = Some (None, (Interpreter inp)\<lparr>stdout := [str ''hello function'']\<rparr>)"
  unfolding fuel_plus by (simp add: run_defs)

lemma run_missing:
  "run H (k + 3) (map Some [FCE (VStr (str ''missingName''))]) (Interpreter inp)
   = Some (None, Interpreter inp)"
  unfolding fuel_plus by (simp add: run_defs)

text \<open>
  C10. Executing \<open>FCE\<close> for a name in \<open>funcs\<close> runs the statements stored there, in
  place and on the same state; for a name not in \<open>funcs\<close> it ends at once with no
  exception and the state as it was, so with nothing printed and \<open>vars\<close> unchanged.
  The table of a new interpreter has the one entry \<open>hello\<close>. The program \<open>fce hello\<close>
  parses, runs without an exception and prints the single line \<open>hello function\<close>; the
  program \<open>fce missingName\<close> parses and runs without an exception, and leaves the
  state of the new interpreter as it was.
\<close>

theorem call_func:
  "(\<forall>body. funcs s name = Some body \<longrightarrow>
      run_stmt H (Suc n) (Some (FCE name)) s = run H n (map Some body) s) \<and>
   (funcs s name = None \<longrightarrow> run_stmt H (Suc n) (Some (FCE name)) s = Some (None, s)) \<and>
   funcs (Interpreter inp :: 'f interp) = [VStr (str ''hello'') \<mapsto> [SET (STR_N (VStr (str ''hello function'')))]] \<and>
   (\<exists>toks prog.
      tokenize H (str ''fce hello'') = Inr toks \<and>
      (\<forall>k. parse (k + 3) toks = Some (Inr prog)) \<and>
      (\<forall>k. run H (k + 5) (map Some prog) (Interpreter inp)
            = Some (None, (Interpreter inp)\<lparr>stdout := [str ''hello function'']\<rparr>))) \<and>
   (\<exists>toks prog.
      tokenize H (str ''fce missingName'') = Inr toks \<and>
      (\<forall>k. parse (k + 3) toks = Some (Inr prog)) \<and>
      (\<forall>k. run H (k + 3) (map Some prog) (Interpreter inp) = Some (None, Interpreter inp)))"
proof (intro conjI)
  show "\<exists>toks prog.
      tokenize H (str ''fce hello'') = Inr toks \<and>
      (\<forall>k. parse (k + 3) toks = Some (Inr prog)) \<and>
      (\<forall>k. run H (k + 5) (map Some prog) (Interpreter inp)
            = Some (None, (Interpreter inp)\<lparr>stdout := [str ''hello function'']\<rparr>))"
    using parse_hello [OF tokenize_hello] run_hello [of H _ inp] tokenize_hello [of H]
    by (intro exI conjI allI) auto
  show "\<exists>toks prog.
      tokenize H (str ''fce missingName'') = Inr toks \<and>
      (\<forall>k. parse (k + 3) toks = Some (Inr prog)) \<and>
      (\<forall>k. run H (k + 3) (map Some prog) (Interpreter inp) = Some (None, Interpreter inp))"
    using parse_missing [OF tokenize_missing] run_missing [of H _ inp] tokenize_missing [of H]
    by (intro exI conjI allI) auto
qed (simp_all add: Interpreter_def)

theorem call_func_witness:
  "funcs (Interpreter [] :: unit interp) (VStr (str ''hello'')) = Some [SET (STR_N (VStr (str ''hello function'')))] \<and>
   run_stmt host0 (Suc 5) (Some (FCE (VStr (str ''hello'')))) (Interpreter [])
     = Some (None, (Interpreter [])\<lparr>stdout := [str ''hello function'']\<rparr>) \<and>
   funcs (Interpreter [] :: unit interp) (VStr (str ''missingName'')) = None \<and>
   run_stmt host0 (Suc 5) (Some (FCE (VStr (str ''missingName'')))) (Interpreter [])
     = Some (None, Interpreter [])"
  using call_func [of "Interpreter []" "VStr (str ''hello'')" host0 5 "[]"]
    call_func [of "Interpreter []" "VStr (str ''missingName'')" host0 5 "[]"]
  unfolding fuel_five by (simp add: run_defs)

section \<open>Properties of the parser\<close>

subsection \<open>Tokens that start no statement\<close>

lemma statement_skips:
  "ttype tok \<noteq> T_VAR \<Longrightarrow> ttype tok \<noteq> T_SET \<Longrightarrow> ttype tok \<noteq> T_IF \<Longrightarrow> ttype tok \<noteq> T_WSET \<Longrightarrow>
   ttype tok \<noteq> T_FCE \<Longrightarrow> ttype tok \<noteq> T_TRY \<Longrightarrow>
   statement (Suc n) (tok # rest) = Some (Inr (None, rest))"
  by simp

lemma parse_loop_skips:
  "\<forall>tok \<in> set ts. ttype tok \<notin> {T_VAR, T_SET, T_IF, T_WSET, T_FCE, T_TRY} \<Longrightarrow>
   length ts < n \<Longrightarrow> parse_loop n stmts ts = Some (Inr stmts)"
proof (induction ts arbitrary: n)
  case Nil
  then obtain m where "n = Suc m" by (cases n) auto
  then show ?case by (simp add: current_def)
next
  case (Cons tok ts)
  from Cons.prems obtain m where n: "n = Suc (Suc m)" "length ts < Suc m"
    by (cases n; cases "n - 1") auto
  have "statement (Suc m) (tok # ts) = Some (Inr (None, ts))"
    using Cons.prems(1) by simp
  moreover have "parse_loop (Suc m) stmts ts = Some (Inr stmts)"
    using Cons.IH [of "Suc m"] Cons.prems(1) n(2) by simp
  ultimately show ?case
    unfolding n(1) by (simp add: current_def append_stmt_def)
qed

text \<open>
  C9. Where \<open>statement\<close> finds a number, a string, \<open>true\<close> or \<open>false\<close>, it consumes
  that one token, returns no statement and raises nothing; so it does at every token
  that is not \<open>var\<close>, \<open>set\<close>, \<open>if\<close>, \<open>wset\<close>, \<open>fce\<close> or \<open>try\<close>. A program whose
  tokens are all literals, or all such tokens, parses to the empty list of statements,
  given fuel beyond the number of tokens.
\<close>

theorem stray_tokens_skipped:
  "(ttype tok \<in> {T_NUMBER, T_STRING, T_TRUE, T_FALSE} \<longrightarrow>
      statement (Suc n) (tok # rest) = Some (Inr (None, rest))) \<and>
   (ttype tok \<notin> {T_VAR, T_SET, T_IF, T_WSET, T_FCE, T_TRY} \<longrightarrow>
      statement (Suc n) (tok # rest) = Some (Inr (None, rest))) \<and>
   ((\<forall>t \<in> set ts. ttype t \<in> {T_NUMBER, T_STRING, T_TRUE, T_FALSE}) \<and> length ts < m \<longrightarrow>
      parse m ts = Some (Inr [])) \<and>
   ((\<forall>t \<in> set ts. ttype t \<notin> {T_VAR, T_SET, T_IF, T_WSET, T_FCE, T_TRY}) \<and> length ts < m \<longrightarrow>
      parse m ts = Some (Inr []))"
proof (intro conjI impI)
  assume "(\<forall>t \<in> set ts. ttype t \<in> {T_NUMBER, T_STRING, T_TRUE, T_FALSE}) \<and> length ts < m"
  then have "\<forall>t \<in> set ts. ttype t \<notin> {T_VAR, T_SET, T_IF, T_WSET, T_FCE, T_TRY}" "length ts < m"
    by auto
  then show "parse m ts = Some (Inr [])"
    unfolding parse_def by (rule parse_loop_skips)
next
  assume "(\<forall>t \<in> set ts. ttype t \<notin> {T_VAR, T_SET, T_IF, T_WSET, T_FCE, T_TRY}) \<and> length ts < m"
  then show "parse m ts = Some (Inr [])"
    unfolding parse_def by (intro parse_loop_skips) auto
qed auto

text \<open>The tokens of \<open>"a" 5 true false\<close>, and the stray tokens \<open>}\<close>, \<open>x\<close>, \<open>=\<close>.\<close>

theorem stray_tokens_skipped_witness:
  "statement (Suc 0) [Token T_STRING (VStr (str ''a'')), Token T_NUMBER (VInt 5) :: unit token]
     = Some (Inr (None, [Token T_NUMBER (VInt 5)])) \<and>
   parse 5 [Token T_STRING (VStr (str ''a'')), Token T_NUMBER (VInt 5), Token T_TRUE (VStr (str ''true'')),
            Token T_FALSE (VStr (str ''false'')) :: unit token] = Some (Inr []) \<and>
   statement (Suc 0) [Token T_RBRACE (VStr (str ''}'')), Token T_IDENT (VStr (str ''x'')) :: unit token]
     = Some (Inr (None, [Token T_IDENT (VStr (str ''x''))])) \<and>
   parse 4 [Token T_RBRACE (VStr (str ''}'')), Token T_IDENT (VStr (str ''x'')),
            Token T_ASSIGN (VStr (str ''='')) :: unit token] = Some (Inr [])"
  using stray_tokens_skipped [of "Token T_STRING (VStr (str ''a'')) :: unit token" 0
      "[Token T_NUMBER (VInt 5)]"
      "[Token T_STRING (VStr (str ''a'')), Token T_NUMBER (VInt 5), Token T_TRUE (VStr (str ''true'')),
        Token T_FALSE (VStr (str ''false'')) :: unit token]" 5]
    stray_tokens_skipped [of "Token T_RBRACE (VStr (str ''}'')) :: unit token" 0
      "[Token T_IDENT (VStr (str ''x''))]"
      "[Token T_RBRACE (VStr (str ''}'')), Token T_IDENT (VStr (str ''x'')),
        Token T_ASSIGN (VStr (str ''='')) :: unit token]" 4]
  by simp

subsection \<open>Chains of operators\<close>

lemma expr_loop_chain:
  assumes "\<forall>(optok, op, fts, f) \<in> set links.
             binop_of (ttype optok) = Some op \<and> (\<forall>rest. factor (fts @ rest) = Inr (f, rest))"
    and "tail = [] \<or> binop_of (ttype (hd tail)) = None"
  shows "expr_loop n (concat (map (\<lambda>(optok, op, fts, f). optok # fts) links) @ tail)
         = Inr (foldl (\<lambda>acc (optok, op, fts, f). BIN op acc f) n links, tail)"
  using assms(1)
proof (induction links arbitrary: n)
  case Nil
  from assms(2) show ?case by (cases tail) auto
next
  case (Cons link links)
  obtain optok op fts f where link: "link = (optok, op, fts, f)"
    by (cases link) auto
  from Cons.prems link have op: "binop_of (ttype optok) = Some op"
    and f: "\<And>rest. factor (fts @ rest) = Inr (f, rest)"
    and rest: "\<forall>(optok, op, fts, f) \<in> set links.
             binop_of (ttype optok) = Some op \<and> (\<forall>rest. factor (fts @ rest) = Inr (f, rest))"
    by auto
  show ?case
    using Cons.IH [OF rest, of "BIN op n f"] by (simp add: link op f)
qed

lemma tokenize_arith:
  "tokenize H (str ''2 pl 3 dp 4'') =
     Inr [Token T_NUMBER (VInt 2), Token T_PL (VStr (str ''pl'')), Token T_NUMBER (VInt 3),
      Token T_DP (VStr (str ''dp'')), Token T_NUMBER (VInt 4)]"
  by (simp add: lex_defs)

lemma tokenize_set_arith:
  "tokenize H (str ''set 2 pl 3 dp 4'') =
     Inr [Token T_SET (VStr (str ''set'')), Token T_NUMBER (VInt 2), Token T_PL (VStr (str ''pl'')), Token T_NUMBER (VInt 3),
      Token T_DP (VStr (str ''dp'')), Token T_NUMBER (VInt 4)]"
  by (simp add: lex_defs)

lemma parse_set_arith:
  "tokenize H (str ''set 2 pl 3 dp 4'') = Inr toks \<Longrightarrow>
   parse (k + 3) toks =
     Some (Inr [SET (BIN DP (BIN PL (NUM (VInt 2)) (NUM (VInt 3))) (NUM (VInt 4)))])"
  unfolding tokenize_set_arith fuel_plus by (auto simp: parse_defs)

lemma run_set_arith:
  "run H (k + 3) (map Some [SET (BIN DP (BIN PL (NUM (VInt 2)) (NUM (VInt 3))) (NUM (VInt 4)))])
     (Interpreter inp) = Some (None, (Interpreter inp)\<lparr>stdout := [str ''20'']\<rparr>)"
  unfolding fuel_plus by (simp add: run_defs)

text \<open>
  C3. \<open>expr\<close> knows no precedence and associates to the left. Take a chain: the tokens
  of a first factor, then links, each an operator token with the tokens of a factor,
  then tokens that begin with no operator. \<open>expr\<close> consumes the chain and returns the
  tree in which each operator, in the order of the text, has the tree of all that
  precedes it as its left child and its own factor as its right child. The tokens of
  \<open>2 pl 3 dp 4\<close> parse to the product of the sum of 2 and 3 with 4, which evaluates to
  20; the program \<open>set 2 pl 3 dp 4\<close> prints the single line \<open>20\<close>.
\<close>

theorem expr_left_assoc:
  "((\<forall>rest. factor (fts0 @ rest) = Inr (f0 :: 'f expr, rest)) \<and>
    (\<forall>(optok, op, fts, f) \<in> set links.
        binop_of (ttype optok) = Some op \<and> (\<forall>rest. factor (fts @ rest) = Inr (f, rest))) \<and>
    (tail = [] \<or> binop_of (ttype (hd tail)) = None) \<longrightarrow>
    expr (fts0 @ concat (map (\<lambda>(optok, op, fts, f). optok # fts) links) @ tail)
      = Inr (foldl (\<lambda>acc (optok, op, fts, f). BIN op acc f) f0 links, tail)) \<and>
   (\<exists>toks. tokenize (H :: 'f host) (str ''2 pl 3 dp 4'') = Inr toks \<and>
      expr toks = Inr (BIN DP (BIN PL (NUM (VInt 2)) (NUM (VInt 3))) (NUM (VInt 4)), [])) \<and>
   eval H (BIN DP (BIN PL (NUM (VInt 2)) (NUM (VInt 3))) (NUM (VInt 4))) s = (Inr (VInt 20), s) \<and>
   (\<exists>toks prog.
      tokenize H (str ''set 2 pl 3 dp 4'') = Inr toks \<and>
      (\<forall>k. parse (k + 3) toks = Some (Inr prog)) \<and>
      (\<forall>k. run H (k + 3) (map Some prog) (Interpreter inp)
            = Some (None, (Interpreter inp)\<lparr>stdout := [str ''20'']\<rparr>)))"
proof (intro conjI impI)
  assume a: "(\<forall>rest. factor (fts0 @ rest) = Inr (f0, rest)) \<and>
    (\<forall>(optok, op, fts, f) \<in> set links.
        binop_of (ttype optok) = Some op \<and> (\<forall>rest. factor (fts @ rest) = Inr (f, rest))) \<and>
    (tail = [] \<or> binop_of (ttype (hd tail)) = None)"
  then show "expr (fts0 @ concat (map (\<lambda>(optok, op, fts, f). optok # fts) links) @ tail)
      = Inr (foldl (\<lambda>acc (optok, op, fts, f). BIN op acc f) f0 links, tail)"
    using expr_loop_chain [of links tail f0] by (simp add: expr_def)
next
  show "\<exists>toks. tokenize H (str ''2 pl 3 dp 4'') = Inr toks \<and>
      expr toks = Inr (BIN DP (BIN PL (NUM (VInt 2)) (NUM (VInt 3))) (NUM (VInt 4)), [])"
    unfolding tokenize_arith by (simp add: expr_def)
next
  show "eval H (BIN DP (BIN PL (NUM (VInt 2)) (NUM (VInt 3))) (NUM (VInt 4))) s = (Inr (VInt 20), s)"
    by simp
next
  show "\<exists>toks prog.
      tokenize H (str ''set 2 pl 3 dp 4'') = Inr toks \<and>
      (\<forall>k. parse (k + 3) toks = Some (Inr prog)) \<and>
      (\<forall>k. run H (k + 3) (map Some prog) (Interpreter inp)
            = Some (None, (Interpreter inp)\<lparr>stdout := [str ''20'']\<rparr>))"
    using parse_set_arith [OF tokenize_set_arith] run_set_arith [of H _ inp]
      tokenize_set_arith [of H]
    by (intro exI conjI allI) auto
qed

text \<open>The chain \<open>2 pl 3 dp 4\<close> before a token \<open>set\<close>.\<close>

theorem expr_left_assoc_witness:
  "expr [Token T_NUMBER (VInt 2), Token T_PL (VStr (str ''pl'')), Token T_NUMBER (VInt 3),
         Token T_DP (VStr (str ''dp'')), Token T_NUMBER (VInt 4), Token T_SET (VStr (str ''set''))]
     = Inr (BIN DP (BIN PL (NUM (VInt 2)) (NUM (VInt 3))) (NUM (VInt 4)) :: unit expr,
            [Token T_SET (VStr (str ''set''))])"
  using expr_left_assoc [of "[Token T_NUMBER (VInt 2)]" "NUM (VInt 2)"
      "[(Token T_PL (VStr (str ''pl'')), PL, [Token T_NUMBER (VInt 3)], NUM (VInt 3)),
        (Token T_DP (VStr (str ''dp'')), DP, [Token T_NUMBER (VInt 4)], NUM (VInt 4))]"
      "[Token T_SET (VStr (str ''set''))]" host0 "Interpreter []" "[]"]
  by simp


section \<open>Properties of the lexer\<close>

subsection \<open>The kinds of the tokens\<close>

lemma mk_token_kind:
  "mk_token H k v = Inr (Some t) \<Longrightarrow> ttype t = k \<and> k \<noteq> T_SKIP \<and> k \<noteq> T_NEWLINE"
  by (auto simp: mk_token_def split: if_splits sum.splits)

lemma mk_token_error: "mk_token H k v = Inl e \<Longrightarrow> e = ValueError"
  by (auto simp: mk_token_def int_of_digits_def split: if_splits sum.splits)

lemma tokenize_line_cases:
  assumes "tokenize_line H (c # cs) = Inr ts"
  obtains "match_at H (c # cs) = None" "tokenize_line H cs = Inr ts"
  | k n t us where "match_at H (c # cs) = Some (k, n)" "mk_token H k (take n (c # cs)) = Inr t"
      "tokenize_line H (drop n (c # cs)) = Inr us" "ts = append_token t us"
  using assms by (auto split: option.splits sum.splits)

lemma tokenize_line_kinds:
  "tokenize_line H s = Inr ts \<Longrightarrow> t \<in> set ts \<Longrightarrow>
   \<exists>n r. match_at H r = Some (ttype t, n) \<and> ttype t \<noteq> T_SKIP \<and> ttype t \<noteq> T_NEWLINE"
proof (induction H s arbitrary: ts rule: tokenize_line.induct)
  case (1 H)
  then show ?case by simp
next
  case (2 H c cs)
  from "2.prems"(1) show ?case
  proof (cases rule: tokenize_line_cases)
    case 1
    with 2 show ?thesis by blast
  next
    case (2 k n u us)
    show ?thesis
    proof (cases "t \<in> set us")
      case True
      with "2.IH"(2) [OF 2(1) refl 2(2) 2(3)] show ?thesis by blast
    next
      case False
      with 2(4) "2.prems"(2) have "u = Some t"
        by (cases u) (auto simp: append_token_def)
      with 2(2) mk_token_kind [of H k "take n (c # cs)" t] 2(1) show ?thesis by auto
    qed
  qed
qed

lemma tokenize_line_error: "tokenize_line H s = Inl e \<Longrightarrow> e = ValueError"
proof (induction H s rule: tokenize_line.induct)
  case (1 H)
  then show ?case by simp
next
  case (2 H c cs)
  show ?case
  proof (cases "match_at H (c # cs)")
    case None
    with 2 show ?thesis by simp
  next
    case (Some kn)
    obtain k n where kn: "kn = (k, n)" by (cases kn) auto
    show ?thesis
    proof (cases "mk_token H k (take n (c # cs))")
      case (Inl e')
      with "2.prems" Some kn mk_token_error [of H k "take n (c # cs)" e'] show ?thesis by simp
    next
      case (Inr u)
      with "2.prems" Some kn "2.IH"(2) [OF Some kn [symmetric] Inr] show ?thesis
        by (auto split: sum.splits)
    qed
  qed
qed

lemma tokenize_lines_error: "tokenize_lines H ls = Inl e \<Longrightarrow> e = ValueError"
  by (induction ls arbitrary: e)
     (auto simp: then_tokens_def split: sum.splits dest: tokenize_line_error)

lemma tokenize_lines_kinds:
  "tokenize_lines H ls = Inr ts \<Longrightarrow> t \<in> set ts \<Longrightarrow>
   \<exists>n r. match_at H r = Some (ttype t, n) \<and> ttype t \<noteq> T_SKIP \<and> ttype t \<noteq> T_NEWLINE"
proof (induction ls arbitrary: ts)
  case Nil
  then show ?case by simp
next
  case (Cons l ls)
  from Cons.prems(1) obtain us vs where us: "tokenize_line H (strip_comment l) = Inr us"
    and vs: "tokenize_lines H ls = Inr vs" and ts: "ts = us @ vs"
    by (auto simp: then_tokens_def split: sum.splits)
  from Cons.prems(2) ts have "t \<in> set us \<or> t \<in> set vs" by simp
  then show ?case
    using tokenize_line_kinds [OF us] Cons.IH [OF vs] by blast
qed




lemma tokenize_no_blank:
  "tokenize H src = Inr ts \<Longrightarrow> t \<in> set ts \<Longrightarrow> ttype t \<noteq> T_SKIP \<and> ttype t \<noteq> T_NEWLINE"
  unfolding tokenize_def using tokenize_lines_kinds by metis

lemma tokenize_error: "tokenize H src = Inl e \<Longrightarrow> e = ValueError"
  unfolding tokenize_def by (rule tokenize_lines_error)

subsection \<open>Blanks, line breaks and the number of tokens\<close>

lemma match_at_space:
  "match_at H (32 # cs) = Some (T_SKIP, Suc (length (takeWhile is_blank cs)))"
  by (simp add: is_blank_def match_at_def token_spec_def number_re_def string_re_def lit_def
      ident_re_def skip_re_def is_digit_def is_ident_start_def dquote_def str_def Let_def)

lemma match_at_tab:
  "match_at H (9 # cs) = Some (T_SKIP, Suc (length (takeWhile is_blank cs)))"
  by (simp add: is_blank_def match_at_def token_spec_def number_re_def string_re_def lit_def
      ident_re_def skip_re_def is_digit_def is_ident_start_def dquote_def str_def Let_def)

lemma match_at_blank:
  "is_blank c \<Longrightarrow> match_at H (c # cs) = Some (T_SKIP, Suc (length (takeWhile is_blank cs)))"
  using match_at_space match_at_tab unfolding is_blank_def by blast

lemma tokenize_line_blank_run:
  "is_blank c \<Longrightarrow> tokenize_line H (c # cs) = tokenize_line H (dropWhile is_blank cs)"
  by (simp add: match_at_blank mk_token_def append_token_def dropWhile_eq_drop split: sum.splits)

lemma tokenize_line_blank:
  assumes "is_blank c"
  shows "tokenize_line H (c # cs) = tokenize_line H cs"
proof -
  have run: "tokenize_line H (c # cs) = tokenize_line H (dropWhile is_blank cs)"
    using assms by (rule tokenize_line_blank_run)
  show ?thesis
  proof (cases cs)
    case Nil
    with run show ?thesis by (simp only: dropWhile.simps)
  next
    case (Cons d ds)
    show ?thesis
    proof (cases "is_blank d")
      case True
      then have "tokenize_line H (d # ds) = tokenize_line H (dropWhile is_blank ds)"
        by (rule tokenize_line_blank_run)
      with run Cons True show ?thesis by (simp only: dropWhile.simps if_True)
    next
      case False
      with run Cons show ?thesis by (simp only: dropWhile.simps if_False)
    qed
  qed
qed

lemma tokenize_line_length: "tokenize_line H s = Inr ts \<Longrightarrow> length ts \<le> length s"
proof (induction H s arbitrary: ts rule: tokenize_line.induct)
  case (1 H)
  then show ?case by simp
next
  case (2 H c cs)
  from "2.prems" show ?case
  proof (cases rule: tokenize_line_cases)
    case 1
    with "2.IH"(1) show ?thesis by fastforce
  next
    case (2 k n u us)
    from 2(1) have pos: "0 < n" by (rule match_at_pos)
    from "2.IH"(2) [OF 2(1) refl 2(2) 2(3)] have "length us \<le> length (c # cs) - n" by simp
    moreover have "length ts \<le> Suc (length us)"
      using 2(4) by (cases u) (auto simp: append_token_def)
    ultimately show ?thesis using pos by simp
  qed
qed

lemma then_tokens_nil [simp]: "then_tokens (Inr []) y = y"
  by (simp add: then_tokens_def split: sum.splits)

lemma then_tokens_assoc:
  "then_tokens (then_tokens x y) z = then_tokens x (then_tokens y z)"
  by (simp add: then_tokens_def split: sum.splits)

lemma splitlines_from_newline:
  "tokenize_lines H (splitlines_from cur (a @ 10 # b))
   = then_tokens (tokenize_lines H (splitlines_from cur a)) (tokenize_lines H (splitlines_from [] b))"
proof (induction cur a rule: splitlines_from.induct)
  case (1 cur)
  show ?case
    by (simp add: is_linebreak_def strip_comment_def then_tokens_def split: sum.splits)
next
  case (2 cur c cs)
  show ?case
  proof (cases cs)
    case Nil
    then show ?thesis
      by (simp add: is_linebreak_def strip_comment_def then_tokens_def split: sum.splits)
  next
    case (Cons d ds)
    with 2 show ?thesis
      by (simp add: then_tokens_assoc)
  qed
qed

lemma tokenize_newline:
  "tokenize H (a @ 10 # b) = then_tokens (tokenize H a) (tokenize H b)"
  unfolding tokenize_def splitlines_def by (rule splitlines_from_newline)

subsection \<open>When the scan raises\<close>

lemma is_digit_not_dot: "is_digit H c \<Longrightarrow> c \<noteq> dot"
  by (auto simp: is_digit_def dot_def split: if_splits)

lemma match_at_number:
  "match_at H s = Some (T_NUMBER, n) \<Longrightarrow> number_re H s = Some n"
  by (simp add: match_at_def token_spec_def split: option.splits)

lemma number_re_digits:
  assumes "number_re H s = Some n" and "dot \<notin> set (take n s)"
  shows "take n s = takeWhile (is_digit H) s"
proof -
  let ?n1 = "length (takeWhile (is_digit H) s)"
  have tw: "take ?n1 s = takeWhile (is_digit H) s"
    by (simp add: takeWhile_eq_take [symmetric])
  show ?thesis
  proof (cases "n = ?n1")
    case True
    with tw show ?thesis by simp
  next
    case False
    with assms(1) have r: "drop ?n1 s \<noteq> []" "hd (drop ?n1 s) = dot" and n: "?n1 < n"
      by (auto simp: number_re_def Let_def split: if_splits)
    from r have "s ! ?n1 = dot" "?n1 < length s"
      by (auto simp: hd_drop_conv_nth)
    with n have "dot \<in> set (take n s)"
      by (metis in_set_conv_nth length_take min_less_iff_conj nth_take)
    with assms(2) show ?thesis by simp
  qed
qed

lemma mk_token_ok:
  assumes "match_at H s = Some (k, n)"
    and "\<forall>pre v post. s = pre @ v @ post \<and> (\<forall>c \<in> set v. is_digit H c) \<longrightarrow> length v \<le> max_str_digits"
  shows "\<exists>t. mk_token H k (take n s) = Inr t"
proof (cases "k = T_NUMBER \<and> dot \<notin> set (take n s)")
  case True
  with assms(1) have "take n s = takeWhile (is_digit H) s"
    using match_at_number number_re_digits by blast
  then have "\<forall>c \<in> set (take n s). is_digit H c"
    by (auto dest: set_takeWhileD)
  moreover have "s = [] @ take n s @ drop n s"
    by simp
  ultimately have "s = [] @ take n s @ drop n s \<and> (\<forall>c \<in> set (take n s). is_digit H c)"
    by blast
  with assms(2) have "length (take n s) \<le> max_str_digits" by blast
  with True show ?thesis by (simp add: mk_token_def int_of_digits_def del: length_take)
next
  case False
  then show ?thesis by (auto simp: mk_token_def)
qed

lemma tokenize_line_ok:
  "\<forall>pre v post. s = pre @ v @ post \<and> (\<forall>c \<in> set v. is_digit H c) \<longrightarrow> length v \<le> max_str_digits
   \<Longrightarrow> \<exists>ts. tokenize_line H s = Inr ts"
proof (induction H s rule: tokenize_line.induct)
  case (1 H)
  then show ?case by simp
next
  case (2 H c cs)
  show ?case
  proof (cases "match_at H (c # cs)")
    case None
    have "\<forall>pre v post. cs = pre @ v @ post \<and> (\<forall>c \<in> set v. is_digit H c) \<longrightarrow> length v \<le> max_str_digits"
    proof (intro allI impI)
      fix pre v post assume "cs = pre @ v @ post \<and> (\<forall>c \<in> set v. is_digit H c)"
      then have "c # cs = (c # pre) @ v @ post \<and> (\<forall>c \<in> set v. is_digit H c)" by simp
      with "2.prems" show "length v \<le> max_str_digits" by blast
    qed
    with "2.IH"(1) [OF None] None show ?thesis by simp
  next
    case (Some kn)
    obtain k n where kn: "kn = (k, n)" by (cases kn) auto
    from mk_token_ok [OF Some [unfolded kn] "2.prems"]
    obtain t where t: "mk_token H k (take n (c # cs)) = Inr t" by blast
    have "\<forall>pre v post. drop n (c # cs) = pre @ v @ post \<and> (\<forall>c \<in> set v. is_digit H c) \<longrightarrow> length v \<le> max_str_digits"
    proof (intro allI impI)
      fix pre v post assume a: "drop n (c # cs) = pre @ v @ post \<and> (\<forall>c \<in> set v. is_digit H c)"
      then have "c # cs = (take n (c # cs) @ pre) @ v @ post"
        by (metis append_assoc append_take_drop_id)
      with a "2.prems" show "length v \<le> max_str_digits" by blast
    qed
    with "2.IH"(2) [OF Some kn [symmetric] t]
    obtain us where "tokenize_line H (drop n (c # cs)) = Inr us" by blast
    with Some kn t show ?thesis by simp
  qed
qed

lemma tokenize_line_long_digits:
  assumes "\<forall>c \<in> set v. is_digit H c" and "max_str_digits < length v"
  shows "tokenize_line H v = Inl ValueError"
proof -
  from assms(2) obtain c cs where v: "v = c # cs" by (cases v) auto
  have tw: "takeWhile (is_digit H) v = v"
    using assms(1) by (simp add: takeWhile_eq_all_conv)
  have "v \<noteq> []"
    using v by simp
  then have "number_re H v = Some (length v)"
    unfolding number_re_def tw by simp
  then have "match_at H v = Some (T_NUMBER, length v)"
    by (simp add: match_at_def token_spec_def)
  moreover have "dot \<notin> set v"
    using assms(1) is_digit_not_dot by blast
  then have "mk_token H T_NUMBER v = Inl ValueError"
    using assms(2) by (simp add: mk_token_def int_of_digits_def)
  ultimately show ?thesis
    unfolding v by simp
qed

lemma splitlines_from_part:
  "l \<in> set (splitlines_from cur r) \<Longrightarrow> \<exists>pre post. cur @ r = pre @ l @ post"
proof (induction cur r rule: splitlines_from.induct)
  case (1 cur)
  then have "cur @ [] = [] @ l @ []" by (auto split: if_splits)
  then show ?case by blast
next
  case (2 cur c cs)
  show ?case
  proof (cases "c = 13 \<and> cs \<noteq> [] \<and> hd cs = 10")
    case True
    with "2.prems" have "l = cur \<or> l \<in> set (splitlines_from [] (tl cs))" by auto
    then show ?thesis
    proof
      assume "l = cur"
      then have "cur @ c # cs = [] @ l @ (c # cs)" by simp
      then show ?thesis by blast
    next
      assume "l \<in> set (splitlines_from [] (tl cs))"
      with "2.IH"(1) [OF True] obtain pre post where "[] @ tl cs = pre @ l @ post" by blast
      with True have "cur @ c # cs = (cur @ [c, hd cs] @ pre) @ l @ post"
        by (cases cs) auto
      then show ?thesis by blast
    qed
  next
    case False
    show ?thesis
    proof (cases "is_linebreak c")
      case True
      with False "2.prems" have "l = cur \<or> l \<in> set (splitlines_from [] cs)" by auto
      then show ?thesis
      proof
        assume "l = cur"
        then have "cur @ c # cs = [] @ l @ (c # cs)" by simp
        then show ?thesis by blast
      next
        assume "l \<in> set (splitlines_from [] cs)"
        with "2.IH"(2) [OF False True] obtain pre post where "[] @ cs = pre @ l @ post" by blast
        then have "cur @ c # cs = (cur @ [c] @ pre) @ l @ post" by simp
        then show ?thesis by blast
      qed
    next
      case nb: False
      with False "2.prems" have "l \<in> set (splitlines_from (cur @ [c]) cs)" by auto
      with "2.IH"(3) [OF False nb] obtain pre post where "(cur @ [c]) @ cs = pre @ l @ post" by blast
      then have "cur @ c # cs = pre @ l @ post" by simp
      then show ?thesis by blast
    qed
  qed
qed

lemma tokenize_lines_ok:
  "\<forall>l \<in> set ls. \<exists>ts. tokenize_line H (strip_comment l) = Inr ts \<Longrightarrow> \<exists>ts. tokenize_lines H ls = Inr ts"
  by (induction ls) (auto simp: then_tokens_def)

lemma tokenize_ok:
  assumes "\<forall>pre v post. src = pre @ v @ post \<and> (\<forall>c \<in> set v. is_digit H c) \<longrightarrow> length v \<le> max_str_digits"
  shows "\<exists>ts. tokenize H src = Inr ts"
  unfolding tokenize_def
proof (rule tokenize_lines_ok, rule ballI)
  fix l assume "l \<in> set (splitlines src)"
  then obtain a b where src: "src = a @ l @ b"
    unfolding splitlines_def using splitlines_from_part [of l "[]" src] by auto
  have l: "l = strip_comment l @ dropWhile (\<lambda>c. c \<noteq> hash) l"
    by (simp add: strip_comment_def)
  have "\<forall>pre v post. strip_comment l = pre @ v @ post \<and> (\<forall>c \<in> set v. is_digit H c) \<longrightarrow> length v \<le> max_str_digits"
  proof (intro allI impI)
    fix pre v post assume a: "strip_comment l = pre @ v @ post \<and> (\<forall>c \<in> set v. is_digit H c)"
    with src l have "src = (a @ pre) @ v @ (post @ dropWhile (\<lambda>c. c \<noteq> hash) l @ b)"
      by (metis append_assoc)
    with a assms show "length v \<le> max_str_digits" by blast
  qed
  then show "\<exists>ts. tokenize_line H (strip_comment l) = Inr ts"
    by (rule tokenize_line_ok)
qed

lemma splitlines_from_no_break:
  "\<forall>c \<in> set s. \<not> is_linebreak c \<Longrightarrow> cur @ s \<noteq> [] \<Longrightarrow> splitlines_from cur s = [cur @ s]"
proof (induction s arbitrary: cur)
  case Nil
  then show ?case by simp
next
  case (Cons c s)
  then have "\<not> is_linebreak c" "c \<noteq> 13" by (auto simp: is_linebreak_def)
  with Cons show ?case by simp
qed

lemma tokenize_long_digits:
  assumes "\<forall>c \<in> set v. is_digit H c \<and> \<not> is_linebreak c" and "max_str_digits < length v"
  shows "tokenize H v = Inl ValueError"
proof -
  from assms(2) have "v \<noteq> []" by auto
  with assms(1) have "splitlines v = [v]"
    unfolding splitlines_def using splitlines_from_no_break [of v "[]"] by simp
  moreover have "\<forall>c \<in> set v. c \<noteq> hash"
    using assms(1) by (auto simp: is_digit_def hash_def split: if_splits)
  then have "strip_comment v = v"
    by (simp add: strip_comment_def takeWhile_eq_all_conv)
  moreover have "tokenize_line H v = Inl ValueError"
    using assms by (intro tokenize_line_long_digits) auto
  ultimately show ?thesis
    by (simp add: tokenize_def then_tokens_def)
qed

text \<open>
  C8, as amended. \<open>tokenize\<close> raises nothing but the ValueError of \<open>int(v)\<close> on an
  integer literal of more than 4300 digits. It returns a token list for every text
  in which no run of decimal digits is longer than 4300 characters, and it raises on
  a text that is one run of more than 4300 digits. No token it returns is of kind
  \<open>SKIP\<close> or \<open>NEWLINE\<close>. Where no pattern of the table matches at a character, the
  scan goes on behind it and no token is made; a blank or a tab makes no token either;
  and the tokens of two texts joined by a newline are the tokens of the first followed
  by those of the second. The scan of a line ends, every match being at least one
  character long, and gives no more tokens than the line has characters.
\<close>

theorem tokenize_fails_on_long_int_only:
  "(\<forall>e. tokenize H src = Inl e \<longrightarrow> e = ValueError) \<and>
   ((\<forall>pre v post. src = pre @ v @ post \<and> (\<forall>c \<in> set v. is_digit H c) \<longrightarrow> length v \<le> max_str_digits)
      \<longrightarrow> (\<exists>ts. tokenize H src = Inr ts)) \<and>
   ((\<forall>c \<in> set v. is_digit H c \<and> \<not> is_linebreak c) \<and> max_str_digits < length v
      \<longrightarrow> tokenize H v = Inl ValueError) \<and>
   (\<forall>ts. tokenize H src = Inr ts \<longrightarrow> (\<forall>t \<in> set ts. ttype t \<noteq> T_SKIP \<and> ttype t \<noteq> T_NEWLINE)) \<and>
   (match_at H (c # cs) = None \<longrightarrow> tokenize_line H (c # cs) = tokenize_line H cs) \<and>
   (is_blank c \<longrightarrow> tokenize_line H (c # cs) = tokenize_line H cs) \<and>
   tokenize H (a @ 10 # b) = then_tokens (tokenize H a) (tokenize H b) \<and>
   (\<forall>ts. tokenize_line H l = Inr ts \<longrightarrow> length ts \<le> length l)"
proof (intro conjI allI impI)
  fix e assume "tokenize H src = Inl e"
  then show "e = ValueError" by (rule tokenize_error)
next
  assume "\<forall>pre v post. src = pre @ v @ post \<and> (\<forall>c \<in> set v. is_digit H c) \<longrightarrow> length v \<le> max_str_digits"
  then show "\<exists>ts. tokenize H src = Inr ts" by (rule tokenize_ok)
next
  assume "(\<forall>c \<in> set v. is_digit H c \<and> \<not> is_linebreak c) \<and> max_str_digits < length v"
  then show "tokenize H v = Inl ValueError" using tokenize_long_digits by blast
next
  fix ts assume "tokenize H src = Inr ts"
  then show "\<forall>t \<in> set ts. ttype t \<noteq> T_SKIP \<and> ttype t \<noteq> T_NEWLINE"
    using tokenize_no_blank by blast
next
  assume "match_at H (c # cs) = None"
  then show "tokenize_line H (c # cs) = tokenize_line H cs" by simp
next
  assume "is_blank c"
  then show "tokenize_line H (c # cs) = tokenize_line H cs" by (rule tokenize_line_blank)
next
  show "tokenize H (a @ 10 # b) = then_tokens (tokenize H a) (tokenize H b)"
    by (rule tokenize_newline)
next
  fix ts assume "tokenize_line H l = Inr ts"
  then show "length ts \<le> length l" by (rule tokenize_line_length)
qed

text \<open>
  A run of 4301 digits; the text \<open>a @ b\<close>, where nothing matches at \<open>@\<close>; and the
  two lines \<open>set\<close>, \<open>x\<close>.
\<close>

theorem tokenize_fails_on_long_int_only_witness:
  "tokenize host0 (replicate 4301 49) = Inl ValueError \<and>
   tokenize host0 (str ''a @ b'')
     = Inr [Token T_IDENT (VStr (str ''a'')), Token T_IDENT (VStr (str ''b''))] \<and>
   match_at host0 (str ''@ b'') = None \<and>
   tokenize_line host0 (str ''@ b'') = tokenize_line host0 (str '' b'') \<and>
   tokenize_line host0 (str '' b'') = tokenize_line host0 (str ''b'') \<and>
   tokenize host0 (str ''set'' @ 10 # str ''x'')
     = Inr [Token T_SET (VStr (str ''set'')), Token T_IDENT (VStr (str ''x''))]"
proof -
  note T1 = tokenize_fails_on_long_int_only
    [where H = host0 and src = "str ''a @ b''" and v = "replicate 4301 49" and c = 64
       and cs = "str '' b''" and a = "str ''set''" and b = "str ''x''" and l = "[]"]
  note T2 = tokenize_fails_on_long_int_only
    [where H = host0 and src = "[]" and v = "[]" and c = 32
       and cs = "str ''b''" and a = "[]" and b = "[]" and l = "[]"]
  have "(\<forall>c \<in> set (replicate 4301 (49::nat)). is_digit host0 c \<and> \<not> is_linebreak c)
        \<and> max_str_digits < length (replicate 4301 (49::nat))"
    by (simp add: is_digit_def is_linebreak_def max_str_digits_def)
  with T1 have 1: "tokenize host0 (replicate 4301 49) = Inl ValueError"
    by blast
  have "\<forall>pre v post. str ''a @ b'' = pre @ v @ post \<and> (\<forall>c \<in> set v. is_digit host0 c)
        \<longrightarrow> length v \<le> max_str_digits"
  proof (intro allI impI)
    fix pre v post
    assume "str ''a @ b'' = pre @ v @ post \<and> (\<forall>c \<in> set v. is_digit host0 c)"
    then have "length (str ''a @ b'') = length (pre @ v @ post)" by simp
    then show "length v \<le> max_str_digits" by (simp add: str_def max_str_digits_def)
  qed
  with T1 obtain ts where "tokenize host0 (str ''a @ b'') = Inr ts"
    by blast
  then have 2: "tokenize host0 (str ''a @ b'')
     = Inr [Token T_IDENT (VStr (str ''a'')), Token T_IDENT (VStr (str ''b''))]"
    by (simp add: lex_defs)
  have 3: "match_at host0 (str ''@ b'') = None"
    by (simp add: lex_defs)
  with T1 have 4: "tokenize_line host0 (str ''@ b'') = tokenize_line host0 (str '' b'')"
    by (simp add: str_def del: tokenize_line.simps)
  have "is_blank 32"
    by (simp add: is_blank_def)
  with T2 have 5: "tokenize_line host0 (str '' b'') = tokenize_line host0 (str ''b'')"
    by (simp add: str_def del: tokenize_line.simps)
  from T1 have "tokenize host0 (str ''set'' @ 10 # str ''x'')
      = then_tokens (tokenize host0 (str ''set'')) (tokenize host0 (str ''x''))"
    by blast
  then have 6: "tokenize host0 (str ''set'' @ 10 # str ''x'')
     = Inr [Token T_SET (VStr (str ''set'')), Token T_IDENT (VStr (str ''x''))]"
    by (simp add: lex_defs)
  from 1 2 3 4 5 6 show ?thesis
    by (intro conjI)
qed

text \<open>
  C8 as stated fails: \<open>tokenize\<close> does not return for every text. On the digit \<open>1\<close>
  written 4301 times the match is one \<open>NUMBER\<close> without a dot, \<open>int(v)\<close> raises
  ValueError, and so does \<open>tokenize\<close>.
\<close>

theorem tokenize_never_fails_counterexample:
  "tokenize host0 (replicate 4301 49) = Inl ValueError"
  by (rule tokenize_long_digits)
     (simp_all add: is_digit_def is_linebreak_def max_str_digits_def)

subsection \<open>The word \<open>len\<close>\<close>














end
